theory Spec2Isabelle
  imports Complex_Main "HOL-Library.Word"
begin

section \<open>Shared vocabulary\<close>

text \<open>
  Go pointers are addresses into a typed memory; a Go object that is reached through
  a pointer lives in a total function from addresses to values, and \<open>new\<close> takes the
  next unused address.  Instants of \<open>time.Time\<close> are integers (nanoseconds); every
  call of \<open>time.Now()\<close> is an argument of the operation that makes it.
\<close>

type_synonym addr = nat
type_synonym time = int

text \<open>
  \<open>float64\<close> as far as the cluster code uses it: the conversion of an \<open>int64\<close>, one
  division and one comparison.  A finite value is the real number the double stands for.
  Both the conversion and the division round to the nearest double, ties to the even
  significand (53 bits); quotients of converted \<open>int64\<close> values lie between \<open>2^-64\<close>
  and \<open>2^64\<close> in magnitude, far inside the range of normal doubles.  A zero divisor
  gives the IEEE infinities and NaN, and NaN compares false with everything.  The sign
  of a zero is not kept: it changes no comparison, and the divisor \<open>float64(0)\<close> is the
  positive zero.
\<close>

datatype f64 = NaN | NegInf | Fin real | PosInf

text \<open>The number of binary digits of a positive integer.\<close>

function bit_length :: "int \<Rightarrow> nat" where
  "bit_length i = (if i \<le> 0 then 0 else Suc (bit_length (i div 2)))"
  by pat_completeness auto
termination
  by (relation "measure nat") auto

declare bit_length.simps [simp del]

text \<open>\<open>N / D\<close> for \<open>0 \<le> N\<close> and \<open>0 < D\<close>, rounded to the nearest integer, a tie to the
  even one.\<close>

definition half_even :: "int \<Rightarrow> int \<Rightarrow> int" where
  "half_even N D =
     (let fl = N div D; rm = N mod D
      in if 2 * rm < D then fl
         else if D < 2 * rm then fl + 1
         else if even fl then fl else fl + 1)"

text \<open>\<open>float64(i)\<close> for an \<open>int64\<close>: the double is itself an integer; below \<open>2^53\<close> in
  magnitude the conversion is exact, above it keeps the 53 leading bits.\<close>

definition float64_of_int64 :: "int \<Rightarrow> int" where
  "float64_of_int64 i =
     (if \<bar>i\<bar> < 2 ^ 53 then i
      else let sh = bit_length \<bar>i\<bar> - 53
           in sgn i * half_even \<bar>i\<bar> (2 ^ sh) * 2 ^ sh)"

text \<open>
  The double nearest to \<open>a / b\<close> for integers \<open>a\<close> and \<open>b \<noteq> 0\<close>: with \<open>e\<close> the binary
  exponent of the quotient (\<open>2^e \<le> |a / b| < 2^(e+1)\<close>), the significand is
  \<open>|a / b| / 2^(e - 52)\<close> rounded to an integer and the value that integer times
  \<open>2^(e - 52)\<close>.
\<close>

definition float64_div :: "int \<Rightarrow> int \<Rightarrow> real" where
  "float64_div a b =
     (if a = 0 then 0
      else
        let e0 = int (bit_length \<bar>a\<bar>) - int (bit_length \<bar>b\<bar>);
            e = (if \<bar>b\<bar> * 2 ^ nat e0 \<le> \<bar>a\<bar> * 2 ^ nat (- e0) then e0 else e0 - 1);
            m = half_even (\<bar>a\<bar> * 2 ^ nat (52 - e)) (\<bar>b\<bar> * 2 ^ nat (e - 52))
        in real_of_int (sgn a * sgn b * m * 2 ^ nat (e - 52)) / real_of_int (2 ^ nat (52 - e)))"

text \<open>\<open>float64(u) / float64(c)\<close>.\<close>

definition float64_quot :: "int \<Rightarrow> int \<Rightarrow> f64" where
  "float64_quot u c =
     (if c = 0 then (if u = 0 then NaN else if 0 < u then PosInf else NegInf)
      else Fin (float64_div (float64_of_int64 u) (float64_of_int64 c)))"

fun f64_less :: "f64 \<Rightarrow> f64 \<Rightarrow> bool" where
  "f64_less NaN y = False"
| "f64_less x NaN = False"
| "f64_less NegInf NegInf = False"
| "f64_less NegInf y = True"
| "f64_less (Fin a) NegInf = False"
| "f64_less (Fin a) (Fin b) = (a < b)"
| "f64_less (Fin a) PosInf = True"
| "f64_less PosInf y = False"

text \<open>
  Errors, one constructor for each place where the code makes one (the argument is the
  text it formats in): \<open>object not found\<close> of Get and Delete, the three I/O failures
  of Put and Get, \<open>no healthy nodes available for replication\<close>, and the two run-time
  panics: an index out of range, and \<open>make\<close> of a slice with a negative capacity.
\<close>

datatype error =
    ObjectNotFound string
  | CreateFailed string
  | WriteFailed string
  | OpenFailed string
  | NoHealthyNodes
  | IndexOutOfRange
  | MakeSliceCapOutOfRange

text \<open>
  An \<open>io.Reader\<close> is the sequence of chunks its \<open>Read\<close> calls deliver, ended by EOF
  (\<open>failure = None\<close>) or by an error.  \<open>io.Copy\<close> hands each chunk to the writer
  and stops at the first error of either side; it returns the writer, the number of bytes
  written and the error.
\<close>

datatype reader = Reader (chunks: "string list") (failure: "string option")

fun io_Copy :: "('w \<Rightarrow> string \<Rightarrow> string + 'w) \<Rightarrow> 'w \<Rightarrow> string list \<Rightarrow> string option
                \<Rightarrow> 'w \<times> int \<times> string option" where
  "io_Copy write w [] fail = (w, 0, fail)"
| "io_Copy write w (c # cs) fail =
     (case write w c of
        Inl e \<Rightarrow> (w, 0, Some e)
      | Inr w' \<Rightarrow>
          (case io_Copy write w' cs fail of
             (w'', n, err) \<Rightarrow> (w'', int (length c) + n, err)))"

section \<open>Cluster membership (internal/cluster/node.go)\<close>

record Node =
  ID :: string
  Address :: string
  Status :: string
  LastSeen :: time
  Load :: f64
  Capacity :: int
  Used :: int

text \<open>
  \<open>ClusterManager\<close>: \<open>nodes\<close> is \<open>map[string]*Node\<close> and \<open>currentNode\<close> is \<open>*Node\<close>;
  \<open>node_at\<close> is the memory the pointers refer to and \<open>node_brk\<close> the next unused
  address.  The mutex and the ticker have no sequential content.
\<close>

record ClusterManager =
  node_at :: "addr \<Rightarrow> Node"
  node_brk :: addr
  nodes :: "string \<rightharpoonup> addr"
  currentNode :: addr

definition zero_Node :: Node where
  "zero_Node = \<lparr>ID = [], Address = [], Status = [], LastSeen = 0, Load = Fin 0,
                 Capacity = 0, Used = 0\<rparr>"

definition NewClusterManager :: "string \<Rightarrow> string \<Rightarrow> time \<Rightarrow> ClusterManager" where
  "NewClusterManager nodeID nodeAddress now =
     \<lparr>node_at = (\<lambda>_. zero_Node)
        (0 := \<lparr>ID = nodeID, Address = nodeAddress, Status = ''healthy'', LastSeen = now,
               Load = Fin 0, Capacity = 10 * 1024 * 1024 * 1024, Used = 0\<rparr>),
      node_brk = 1,
      nodes = [nodeID \<mapsto> 0],
      currentNode = 0\<rparr>"

text \<open>\<open>RegisterNode(node *Node)\<close>: stamps the object it is handed and stores the pointer
  under the object's ID, whatever was there.\<close>

definition RegisterNode :: "time \<Rightarrow> addr \<Rightarrow> ClusterManager \<Rightarrow> ClusterManager" where
  "RegisterNode now node cm =
     (let m = (node_at cm)(node := (node_at cm node)\<lparr>LastSeen := now\<rparr>)
      in cm\<lparr>node_at := m, nodes := (nodes cm)(ID (m node) \<mapsto> node)\<rparr>)"

text \<open>\<open>HandleNodeRegistration\<close>: the request body decodes to a \<open>Node\<close> value in a fresh
  variable (\<open>None\<close>: the body does not decode, status 400, nothing registered).\<close>

definition HandleNodeRegistration :: "time \<Rightarrow> Node option \<Rightarrow> ClusterManager \<Rightarrow> ClusterManager" where
  "HandleNodeRegistration now body cm =
     (case body of
        None \<Rightarrow> cm
      | Some n \<Rightarrow>
          RegisterNode now (node_brk cm)
            (cm\<lparr>node_at := (node_at cm)(node_brk cm := n), node_brk := Suc (node_brk cm)\<rparr>))"

text \<open>
  \<open>range cm.nodes\<close> visits every key of the map once, in an order Go does not fix:
  the order of a traversal is the argument \<open>ks\<close> of the function that makes it.
\<close>

fun GetHealthyNodes :: "ClusterManager \<Rightarrow> string list \<Rightarrow> addr list" where
  "GetHealthyNodes cm [] = []"
| "GetHealthyNodes cm (k # ks) =
     (case nodes cm k of
        None \<Rightarrow> GetHealthyNodes cm ks
      | Some node \<Rightarrow>
          if Status (node_at cm node) = ''healthy''
          then node # GetHealthyNodes cm ks
          else GetHealthyNodes cm ks)"

text \<open>\<open>float64(node.Used) / float64(node.Capacity)\<close>, and the search of
  \<open>SelectNodeForWrite\<close> for the lowest one among the healthy nodes.\<close>

definition utilization_of :: "ClusterManager \<Rightarrow> addr \<Rightarrow> f64" where
  "utilization_of cm node = float64_quot (Used (node_at cm node)) (Capacity (node_at cm node))"

fun lowest_load :: "ClusterManager \<Rightarrow> addr list \<Rightarrow> addr option \<Rightarrow> f64 \<Rightarrow> addr option" where
  "lowest_load cm [] bestNode lowestLoad = bestNode"
| "lowest_load cm (node # rest) bestNode lowestLoad =
     (let utilization = utilization_of cm node
      in if f64_less utilization lowestLoad
         then lowest_load cm rest (Some node) utilization
         else lowest_load cm rest bestNode lowestLoad)"

definition SelectNodeForWrite :: "ClusterManager \<Rightarrow> string list \<Rightarrow> addr option" where
  "SelectNodeForWrite cm ks =
     (let ns = GetHealthyNodes cm ks
      in if length ns = 0 then None else lowest_load cm ns None (Fin 1))"

function first_count :: "addr list \<Rightarrow> int \<Rightarrow> int \<Rightarrow> addr list \<Rightarrow> addr list" where
  "first_count ns count i selected =
     (if i < count \<and> i < int (length ns)
      then first_count ns count (i + 1) (selected @ [ns ! nat i])
      else selected)"
  by pat_completeness auto
termination
  by (relation "measure (\<lambda>(ns, count, i, selected). nat (int (length ns) - i))") auto

declare first_count.simps [simp del]

text \<open>\<open>SelectNodesForReplication\<close>: when more healthy nodes exist than \<open>count\<close>, the
  code makes a slice of capacity \<open>count\<close>, which panics for a negative \<open>count\<close>.\<close>

definition SelectNodesForReplication :: "ClusterManager \<Rightarrow> string list \<Rightarrow> int
    \<Rightarrow> error + addr list" where
  "SelectNodesForReplication cm ks count =
     (let ns = GetHealthyNodes cm ks
      in if int (length ns) \<le> count then Inr ns
         else if count < 0 then Inl MakeSliceCapOutOfRange
         else Inr (first_count ns count 0 []))"

text \<open>
  \<open>performHealthCheck\<close>: one pass of the sweep over the keys in traversal order
  \<open>ks\<close>, at instant \<open>now\<close>.  \<open>pingNode\<close> is the outcome of the HTTP probe of a node
  (true: the peer answered 200 within the timeout).  Sixty seconds are
  \<open>60 * 10^9\<close> nanoseconds.
\<close>

definition health_step :: "time \<Rightarrow> (Node \<Rightarrow> bool) \<Rightarrow> string \<Rightarrow> ClusterManager \<Rightarrow> ClusterManager" where
  "health_step now pingNode nodeID cm =
     (case nodes cm nodeID of
        None \<Rightarrow> cm
      | Some node \<Rightarrow>
          if nodeID = ID (node_at cm (currentNode cm)) then cm
          else if now - LastSeen (node_at cm node) > 60 * 1000000000
          then cm\<lparr>node_at := (node_at cm)(node := (node_at cm node)\<lparr>Status := ''unhealthy''\<rparr>)\<rparr>
          else if pingNode (node_at cm node)
          then cm\<lparr>node_at := (node_at cm)
                 (node := (node_at cm node)\<lparr>Status := ''healthy'', LastSeen := now\<rparr>)\<rparr>
          else cm\<lparr>node_at := (node_at cm)(node := (node_at cm node)\<lparr>Status := ''unhealthy''\<rparr>)\<rparr>)"

fun performHealthCheck :: "time \<Rightarrow> (Node \<Rightarrow> bool) \<Rightarrow> string list \<Rightarrow> ClusterManager \<Rightarrow> ClusterManager" where
  "performHealthCheck now pingNode [] cm = cm"
| "performHealthCheck now pingNode (nodeID # ks) cm =
     performHealthCheck now pingNode ks (health_step now pingNode nodeID cm)"

text \<open>Modelled from the spec: \<open>GetCurrentNode\<close> is called by the replication manager and is
  not among the functions of node.go; it hands out the pointer to the self node.\<close>

definition GetCurrentNode :: "ClusterManager \<Rightarrow> addr" where
  "GetCurrentNode cm = currentNode cm"

text \<open>A run of the membership component after construction: registrations arriving over
  HTTP and passes of the sweep.\<close>

datatype cluster_event =
    Registration time "Node option"
  | Sweep time "Node \<Rightarrow> bool" "string list"

fun cluster_run :: "cluster_event list \<Rightarrow> ClusterManager \<Rightarrow> ClusterManager" where
  "cluster_run [] cm = cm"
| "cluster_run (Registration now body # es) cm =
     cluster_run es (HandleNodeRegistration now body cm)"
| "cluster_run (Sweep now pingNode ks # es) cm =
     cluster_run es (performHealthCheck now pingNode ks cm)"

fun registers_as :: "string \<Rightarrow> cluster_event \<Rightarrow> bool" where
  "registers_as nodeID (Registration now (Some n)) = (ID n = nodeID)"
| "registers_as nodeID e = False"

section \<open>Object descriptors (pkg/models)\<close>

record ReplicaInfo =
  NodeID :: string
  FilePath :: string
  replica_Status :: string

text \<open>\<open>AccessCount\<close> is an \<open>int64\<close> that the store increments, so it is a 64-bit word;
  \<open>Size\<close> is only ever assigned a byte count.\<close>

record StorageObject =
  obj_ID :: string
  Key :: string
  Size :: int
  ContentType :: string
  Checksum :: string
  CreatedAt :: time
  UpdatedAt :: time
  AccessCount :: "64 word"
  LastAccess :: time
  Metadata :: "string \<rightharpoonup> string"
  StorageTier :: string
  Replicas :: "ReplicaInfo list"

section \<open>Replication (internal/replication/manager.go)\<close>

record ReplicationTask =
  ObjectID :: string
  ObjectKey :: string
  SourceNode :: string
  TargetNodes :: "string list"
  task_Status :: string
  task_CreatedAt :: time
  CompletedAt :: "time option"
  Error :: string

text \<open>
  \<open>ReplicationManager\<close>: \<open>clusterManager\<close> is the membership component it reads,
  \<open>pendingReplications\<close> the \<open>sync.Map\<close> from object ID to \<open>*ReplicationTask\<close>,
  \<open>task_at\<close> and \<open>task_brk\<close> the memory of the task records, and \<open>descriptor_at\<close> the
  memory holding the \<open>*models.StorageObject\<close> descriptors handed to it.
\<close>

record ReplicationManager =
  clusterManager :: ClusterManager
  replicationFactor :: int
  pendingReplications :: "string \<rightharpoonup> addr"
  task_at :: "addr \<Rightarrow> ReplicationTask"
  task_brk :: addr
  descriptor_at :: "addr \<Rightarrow> StorageObject"

text \<open>The network: whether \<open>http.NewRequest\<close> accepts a URL, and what the client's \<open>Do\<close>
  gives for a request (the status code, or \<open>None\<close> for a transport error or timeout).\<close>

record http_request =
  req_method :: string
  req_url :: string
  req_body :: string
  req_header :: "(string \<times> string) list"

record network =
  url_ok :: "string \<Rightarrow> bool"
  client_Do :: "http_request \<Rightarrow> nat option"

text \<open>\<open>ReplicateObject\<close>, the part that runs before it returns.  The result is the error
  (or the panic that the selection of targets raised), or the task pointer that the
  detached \<open>executeReplication\<close> goes on to work with.\<close>

definition ReplicateObject :: "string list \<Rightarrow> time \<Rightarrow> addr \<Rightarrow> ReplicationManager
    \<Rightarrow> (error + addr) \<times> ReplicationManager" where
  "ReplicateObject ks now obj rm =
     (let cm = clusterManager rm
      in case SelectNodesForReplication cm ks (replicationFactor rm) of
           Inl panic \<Rightarrow> (Inl panic, rm)
         | Inr targetNodes \<Rightarrow>
             if length targetNodes = 0 then (Inl NoHealthyNodes, rm)
             else
               let task = task_brk rm;
                   t = \<lparr>ObjectID = obj_ID (descriptor_at rm obj),
                        ObjectKey = Key (descriptor_at rm obj),
                        SourceNode = ID (node_at cm (GetCurrentNode cm)),
                        TargetNodes = map (\<lambda>node. ID (node_at cm node)) targetNodes,
                        task_Status = ''pending'',
                        task_CreatedAt = now,
                        CompletedAt = None,
                        Error = []\<rparr>
               in (Inr task,
                   rm\<lparr>task_at := (task_at rm)(task := t),
                      task_brk := Suc task,
                      pendingReplications :=
                        (pendingReplications rm)(obj_ID (descriptor_at rm obj) \<mapsto> task)\<rparr>))"

definition markTaskFailed :: "time \<Rightarrow> addr \<Rightarrow> string \<Rightarrow> ReplicationManager \<Rightarrow> ReplicationManager" where
  "markTaskFailed now task errorMsg rm =
     rm\<lparr>task_at := (task_at rm)
        (task := (task_at rm task)
           \<lparr>task_Status := ''failed'', Error := errorMsg, CompletedAt := Some now\<rparr>)\<rparr>"

definition replicateToNode :: "network \<Rightarrow> string list \<Rightarrow> ReplicationManager \<Rightarrow> string \<Rightarrow> addr
    \<Rightarrow> string \<Rightarrow> bool" where
  "replicateToNode net ks rm nodeID obj data =
     (let cm = clusterManager rm; ob = descriptor_at rm obj
      in case find (\<lambda>node. ID (node_at cm node) = nodeID) (GetHealthyNodes cm ks) of
           None \<Rightarrow> False
         | Some targetNode \<Rightarrow>
             let u = ''http://'' @ Address (node_at cm targetNode)
                       @ ''/internal/replicate/'' @ Key ob
             in if \<not> url_ok net u then False
                else
                  (case client_Do net
                          \<lparr>req_method = ''PUT'', req_url = u, req_body = data,
                           req_header = [(''Content-Type'', ContentType ob),
                                     (''X-Object-ID'', obj_ID ob),
                                     (''X-Checksum'', Checksum ob),
                                     (''X-Replication-Source'',
                                        ID (node_at cm (GetCurrentNode cm)))]\<rparr> of
                     None \<Rightarrow> False
                   | Some StatusCode \<Rightarrow> StatusCode = 200))"

text \<open>
  The fan-out of \<open>executeReplication\<close>.  The goroutines only meet at the counter, under
  its mutex, and at the wait group, so the tally is the number of targets whose attempt
  returned true; the attempts are taken in the order of \<open>TargetNodes\<close>.  \<open>order nID\<close> is
  the traversal order of the membership table seen by the attempt for \<open>nID\<close>.
\<close>

fun fan_out :: "network \<Rightarrow> (string \<Rightarrow> string list) \<Rightarrow> ReplicationManager \<Rightarrow> addr \<Rightarrow> string
    \<Rightarrow> string list \<Rightarrow> int \<Rightarrow> int" where
  "fan_out net order rm obj buffer [] successCount = successCount"
| "fan_out net order rm obj buffer (nID # rest) successCount =
     fan_out net order rm obj buffer rest
       (if replicateToNode net (order nID) rm nID obj buffer
        then successCount + 1 else successCount)"

definition buffer_Write :: "string \<Rightarrow> string \<Rightarrow> string + string" where
  "buffer_Write buffer p = Inr (buffer @ p)"

definition store_task :: "addr \<Rightarrow> ReplicationManager \<Rightarrow> ReplicationManager" where
  "store_task task rm =
     rm\<lparr>pendingReplications := (pendingReplications rm)(ObjectID (task_at rm task) \<mapsto> task)\<rparr>"

definition executeReplication :: "network \<Rightarrow> (string \<Rightarrow> string list) \<Rightarrow> time \<Rightarrow> addr \<Rightarrow> addr
    \<Rightarrow> reader \<Rightarrow> ReplicationManager \<Rightarrow> ReplicationManager" where
  "executeReplication net order now task obj data rm =
     (let rm1 = store_task task
                  (rm\<lparr>task_at := (task_at rm)
                        (task := (task_at rm task)\<lparr>task_Status := ''in_progress''\<rparr>)\<rparr>)
      in case io_Copy buffer_Write [] (chunks data) (failure data) of
           (buffer, n, Some err) \<Rightarrow>
             markTaskFailed now task (''Failed to buffer data: '' @ err) rm1
         | (buffer, n, None) \<Rightarrow>
             let successCount = fan_out net order rm1 obj buffer (TargetNodes (task_at rm1 task)) 0;
                 rm2 = (if successCount > 0
                        then rm1\<lparr>task_at := (task_at rm1)
                               (task := (task_at rm1 task)
                                  \<lparr>task_Status := ''completed'', CompletedAt := Some now\<rparr>)\<rparr>
                        else markTaskFailed now task ''Failed to replicate to any target node'' rm1)
             in store_task task rm2)"

text \<open>\<open>ReplicateObject\<close> together with the goroutine it starts, run to its end.\<close>

definition replicate_to_end :: "network \<Rightarrow> string list \<Rightarrow> (string \<Rightarrow> string list) \<Rightarrow> time \<Rightarrow> time
    \<Rightarrow> addr \<Rightarrow> reader \<Rightarrow> ReplicationManager \<Rightarrow> (error + addr) \<times> ReplicationManager" where
  "replicate_to_end net ks order now now' obj data rm =
     (case ReplicateObject ks now obj rm of
        (Inl e, rm') \<Rightarrow> (Inl e, rm')
      | (Inr task, rm') \<Rightarrow> (Inr task, executeReplication net order now' task obj data rm'))"

definition GetReplicationStatus :: "ReplicationManager \<Rightarrow> string \<Rightarrow> ReplicationTask option" where
  "GetReplicationStatus rm objectID = map_option (task_at rm) (pendingReplications rm objectID)"

section \<open>Local object store (internal/storage/filestore.go)\<close>

text \<open>
  \<open>FileStore\<close>: \<open>objects\<close> is \<open>map[string]*models.StorageObject\<close>, \<open>object_at\<close> and
  \<open>object_brk\<close> the memory of the descriptors.  The disk under the storage root is the
  payload files by path (\<open>files\<close>) and the document \<open>metadata/objects.json\<close>
  (\<open>index_document\<close>: the key-to-descriptor mapping it encodes, \<open>None\<close> before the first
  write).  Object IDs are 32 hexadecimal digits, so no payload file is that document.
\<close>

record FileStore =
  basePath :: string
  metadataPath :: string
  objects :: "string \<rightharpoonup> addr"
  object_at :: "addr \<Rightarrow> StorageObject"
  object_brk :: addr
  files :: "string \<rightharpoonup> string"
  index_document :: "(string \<rightharpoonup> StorageObject) option"

text \<open>The library functions the store calls: \<open>md5.Sum\<close> (the streaming hasher of
  \<open>md5.New\<close> computes the same digest of all bytes written to it), \<open>Time.String\<close> and
  \<open>filepath.Join\<close>.\<close>

record platform =
  md5_Sum :: "string \<Rightarrow> string"
  time_String :: "time \<Rightarrow> string"
  filepath_Join :: "string \<Rightarrow> string \<Rightarrow> string"

text \<open>\<open>fmt.Sprintf("%x", bytes)\<close>: two lower-case hexadecimal digits for each byte.\<close>

definition hex_digit :: "nat \<Rightarrow> char" where
  "hex_digit n = ''0123456789abcdef'' ! n"

definition hex :: "string \<Rightarrow> string" where
  "hex bs = concat (map (\<lambda>c. [hex_digit (of_char c div 16), hex_digit (of_char c mod 16)]) bs)"

text \<open>
  \<open>saveMetadata\<close> rewrites the document from the whole index and \<open>os.Remove\<close> unlinks a
  path.  The code drops the results of \<open>json.MarshalIndent\<close>, \<open>os.WriteFile\<close> and
  \<open>os.Remove\<close>; here the disk carries these operations out.
\<close>

definition index_snapshot :: "FileStore \<Rightarrow> (string \<rightharpoonup> StorageObject)" where
  "index_snapshot fs = (\<lambda>k. map_option (object_at fs) (objects fs k))"

definition saveMetadata :: "FileStore \<Rightarrow> FileStore" where
  "saveMetadata fs = fs\<lparr>index_document := Some (index_snapshot fs)\<rparr>"

definition os_Remove :: "string \<Rightarrow> FileStore \<Rightarrow> FileStore" where
  "os_Remove path fs = fs\<lparr>files := (files fs)(path := None)\<rparr>"

text \<open>
  What one call of \<open>Put\<close> meets outside the store: the four readings of the clock it
  takes, whether \<open>os.Create\<close> fails, and how many bytes the new file can take before a
  \<open>Write\<close> to it fails (\<open>None\<close>: as many as are written).
\<close>

record put_env =
  now_id :: time
  now_created :: time
  now_updated :: time
  now_access :: time
  create_error :: "string option"
  space_left :: "nat option"

text \<open>\<open>io.MultiWriter(file, hasher)\<close>: the file first, and the hasher only when the file
  took the chunk.\<close>

definition multi_Write :: "nat option \<Rightarrow> string \<times> string \<Rightarrow> string \<Rightarrow> string + string \<times> string" where
  "multi_Write space w p =
     (case w of (file, hasher) \<Rightarrow>
        (case space of
           None \<Rightarrow> Inr (file @ p, hasher @ p)
         | Some limit \<Rightarrow>
             if limit < length file + length p then Inl ''no space left on device''
             else Inr (file @ p, hasher @ p)))"

definition Put :: "platform \<Rightarrow> put_env \<Rightarrow> string \<Rightarrow> reader \<Rightarrow> string \<Rightarrow> FileStore
    \<Rightarrow> (error + addr) \<times> FileStore" where
  "Put pf env key data contentType fs =
     (let objectID = hex (md5_Sum pf (key @ time_String pf (now_id env)));
          filePath = filepath_Join pf (basePath fs) objectID
      in case create_error env of
           Some e \<Rightarrow> (Inl (CreateFailed e), fs)
         | None \<Rightarrow>
             (case io_Copy (multi_Write (space_left env)) ([], []) (chunks data) (failure data) of
                ((file, hasher), written, Some e) \<Rightarrow>
                  (Inl (WriteFailed e),
                   os_Remove filePath (fs\<lparr>files := (files fs)(filePath \<mapsto> file)\<rparr>))
              | ((file, hasher), written, None) \<Rightarrow>
                  let checksum = hex (md5_Sum pf hasher);
                      obj = object_brk fs;
                      ob = \<lparr>obj_ID = objectID, Key = key, Size = written,
                            ContentType = contentType, Checksum = checksum,
                            CreatedAt = now_created env, UpdatedAt = now_updated env,
                            AccessCount = 0, LastAccess = now_access env,
                            Metadata = Map.empty, StorageTier = ''hot'',
                            Replicas = [\<lparr>NodeID = ''node-1'', FilePath = filePath,
                                         replica_Status = ''active''\<rparr>]\<rparr>
                  in (Inr obj,
                      saveMetadata
                        (fs\<lparr>files := (files fs)(filePath \<mapsto> file),
                            object_at := (object_at fs)(obj := ob),
                            object_brk := Suc obj,
                            objects := (objects fs)(key \<mapsto> obj)\<rparr>))))"

text \<open>What one call of \<open>Get\<close> meets: the reading of the clock, and an error of \<open>os.Open\<close>
  on a file that is there (a missing file is an error in any case).\<close>

record get_env =
  now_get :: time
  open_error :: "string option"

definition os_Open :: "get_env \<Rightarrow> string \<Rightarrow> FileStore \<Rightarrow> string + string" where
  "os_Open env path fs =
     (case files fs path of
        None \<Rightarrow> Inl ''no such file or directory''
      | Some content \<Rightarrow> (case open_error env of Some e \<Rightarrow> Inl e | None \<Rightarrow> Inr content))"

text \<open>\<open>Get\<close> returns the bytes that the opened file delivers, with the descriptor pointer.\<close>

definition Get :: "get_env \<Rightarrow> string \<Rightarrow> FileStore \<Rightarrow> (error + string \<times> addr) \<times> FileStore" where
  "Get env key fs =
     (case objects fs key of
        None \<Rightarrow> (Inl (ObjectNotFound key), fs)
      | Some obj \<Rightarrow>
          let fs' = saveMetadata
                      (fs\<lparr>object_at := (object_at fs)
                            (obj := (object_at fs obj)
                               \<lparr>AccessCount := AccessCount (object_at fs obj) + 1,
                                LastAccess := now_get env\<rparr>)\<rparr>)
          in (case Replicas (object_at fs' obj) of
                [] \<Rightarrow> (Inl IndexOutOfRange, fs')
              | replica # _ \<Rightarrow>
                  (case os_Open env (FilePath replica) fs' of
                     Inl e \<Rightarrow> (Inl (OpenFailed e), fs')
                   | Inr content \<Rightarrow> (Inr (content, obj), fs'))))"

fun remove_replicas :: "ReplicaInfo list \<Rightarrow> FileStore \<Rightarrow> FileStore" where
  "remove_replicas [] fs = fs"
| "remove_replicas (replica # rest) fs = remove_replicas rest (os_Remove (FilePath replica) fs)"

definition Delete :: "string \<Rightarrow> FileStore \<Rightarrow> error option \<times> FileStore" where
  "Delete key fs =
     (case objects fs key of
        None \<Rightarrow> (Some (ObjectNotFound key), fs)
      | Some obj \<Rightarrow>
          let fs' = remove_replicas (Replicas (object_at fs obj)) fs
          in (None, saveMetadata (fs'\<lparr>objects := (objects fs')(key := None)\<rparr>)))"

definition List_objects :: "FileStore \<Rightarrow> (string \<rightharpoonup> addr)" where
  "List_objects fs = objects fs"

section \<open>Concrete states\<close>

text \<open>A node \<open>node-1\<close> that has registered two peers and swept once: \<open>node-2\<close> answered the
  probe, \<open>node-3\<close> did not.\<close>

definition peer :: "string \<Rightarrow> string \<Rightarrow> string \<Rightarrow> int \<Rightarrow> int \<Rightarrow> Node" where
  "peer i a s c u =
     \<lparr>ID = i, Address = a, Status = s, LastSeen = 0, Load = Fin 0, Capacity = c, Used = u\<rparr>"

definition three_nodes :: ClusterManager where
  "three_nodes =
     cluster_run
       [Registration 5 (Some (peer ''node-2'' ''10.0.0.2:8080'' ''unknown'' 100 40)),
        Registration 6 (Some (peer ''node-3'' ''10.0.0.3:8080'' ''unknown'' 100 10)),
        Sweep 10 (\<lambda>n. Address n = ''10.0.0.2:8080'') [''node-3'', ''node-1'', ''node-2'']]
       (NewClusterManager ''node-1'' ''10.0.0.1:8080'' 0)"

text \<open>A node \<open>node-1\<close> to which a descriptor with its own ID was posted: once full and
  healthy, once unhealthy.\<close>

definition self_full :: ClusterManager where
  "self_full =
     HandleNodeRegistration 1 (Some (peer ''node-1'' ''10.0.0.1:8080'' ''healthy'' 100 100))
       (NewClusterManager ''node-1'' ''10.0.0.1:8080'' 0)"

definition self_demoted :: ClusterManager where
  "self_demoted =
     HandleNodeRegistration 1 (Some (peer ''node-1'' ''10.0.0.9:8080'' ''unhealthy'' 100 40))
       (NewClusterManager ''node-1'' ''10.0.0.1:8080'' 0)"

text \<open>The invariant behind the pinned self node: the table entry under the self ID is the
  \<open>currentNode\<close> object, that object is healthy, and every entry is filed under the ID of
  the object it points to.\<close>

definition self_pinned :: "string \<Rightarrow> ClusterManager \<Rightarrow> bool" where
  "self_pinned nodeID cm \<longleftrightarrow>
     currentNode cm < node_brk cm \<and>
     ID (node_at cm (currentNode cm)) = nodeID \<and>
     Status (node_at cm (currentNode cm)) = ''healthy'' \<and>
     nodes cm nodeID = Some (currentNode cm) \<and>
     (\<forall>k p. nodes cm k = Some p \<longrightarrow> p < node_brk cm \<and> ID (node_at cm p) = k)"

text \<open>Replication managers with factor 3 and no task yet, holding the descriptor of one
  stored object at address 0: on a node without peers, on the node whose own entry was
  replaced by an unhealthy one, and on a node with two healthy peers.\<close>

definition zero_Task :: ReplicationTask where
  "zero_Task = \<lparr>ObjectID = [], ObjectKey = [], SourceNode = [], TargetNodes = [],
                 task_Status = [], task_CreatedAt = 0, CompletedAt = None, Error = []\<rparr>"

definition zero_Object :: StorageObject where
  "zero_Object = \<lparr>obj_ID = [], Key = [], Size = 0, ContentType = [], Checksum = [],
                   CreatedAt = 0, UpdatedAt = 0, AccessCount = 0, LastAccess = 0,
                   Metadata = Map.empty, StorageTier = [], Replicas = []\<rparr>"

definition report :: StorageObject where
  "report = \<lparr>obj_ID = ''0a1b'', Key = ''report.csv'', Size = 5, ContentType = ''text/csv'',
              Checksum = ''5d41'', CreatedAt = 3, UpdatedAt = 3, AccessCount = 0,
              LastAccess = 3, Metadata = Map.empty, StorageTier = ''hot'',
              Replicas = [\<lparr>NodeID = ''node-1'', FilePath = ''data/0a1b'',
                           replica_Status = ''active''\<rparr>]\<rparr>"

definition manager_on :: "ClusterManager \<Rightarrow> ReplicationManager" where
  "manager_on cm =
     \<lparr>clusterManager = cm, replicationFactor = 3, pendingReplications = Map.empty,
      task_at = (\<lambda>_. zero_Task), task_brk = 0,
      descriptor_at = (\<lambda>_. zero_Object)(0 := report)\<rparr>"

definition all_healthy :: ClusterManager where
  "all_healthy =
     cluster_run
       [Registration 5 (Some (peer ''node-2'' ''10.0.0.2:8080'' ''unknown'' 100 40)),
        Registration 6 (Some (peer ''node-3'' ''10.0.0.3:8080'' ''unknown'' 100 10)),
        Sweep 10 (\<lambda>n. True) [''node-3'', ''node-1'', ''node-2'']]
       (NewClusterManager ''node-1'' ''10.0.0.1:8080'' 0)"

text \<open>A network in which every URL is well formed and every peer but \<open>10.0.0.3\<close>
  answers a push with 200.\<close>

definition two_of_three :: network where
  "two_of_three =
     \<lparr>url_ok = (\<lambda>u. True),
      client_Do = (\<lambda>req. if req_url req = ''http://10.0.0.3:8080/internal/replicate/report.csv''
                           then None else Some 200)\<rparr>"

text \<open>The manager on the node with two healthy peers after \<open>ReplicateObject\<close> filed the
  task for the report.\<close>

definition filed :: ReplicationManager where
  "filed = snd (ReplicateObject [''node-1'', ''node-2'', ''node-3''] 7 0 (manager_on all_healthy))"

text \<open>An empty store under \<open>data\<close>, and stand-ins for the library functions (the claims
  hold for any digest: here the digest of a byte string is its reversal).\<close>

definition empty_store :: FileStore where
  "empty_store =
     \<lparr>basePath = ''data'', metadataPath = ''data/metadata'', objects = Map.empty,
      object_at = (\<lambda>_. zero_Object), object_brk = 0, files = Map.empty,
      index_document = None\<rparr>"

definition stand_in :: platform where
  "stand_in = \<lparr>md5_Sum = rev, time_String = (\<lambda>t. replicate (nat t) CHR ''I''),
               filepath_Join = (\<lambda>dir name. dir @ ''/'' @ name)\<rparr>"

definition calm :: put_env where
  "calm = \<lparr>now_id = 3, now_created = 3, now_updated = 3, now_access = 3,
            create_error = None, space_left = None\<rparr>"

definition retry :: put_env where
  "retry = \<lparr>now_id = 9, now_created = 9, now_updated = 9, now_access = 9,
             create_error = None, space_left = None\<rparr>"

definition stored :: FileStore where
  "stored = snd (Put stand_in calm ''report.csv'' (Reader [''he'', ''llo''] None) ''text/csv''
                   empty_store)"

section \<open>Properties of the membership component\<close>

lemma first_count_eq:
  "0 \<le> i \<Longrightarrow> first_count ns count i selected = selected @ drop (nat i) (take (nat count) ns)"
proof (induction ns count i selected rule: first_count.induct)
  case (1 ns count i selected)
  let ?T = "take (nat count) ns"
  show ?case
  proof (cases "i < count \<and> i < int (length ns)")
    case True
    then have "first_count ns count i selected
                 = first_count ns count (i + 1) (selected @ [ns ! nat i])"
      by (subst first_count.simps) simp
    also have "\<dots> = (selected @ [ns ! nat i]) @ drop (nat (i + 1)) ?T"
      using 1 True by simp
    also have "\<dots> = selected @ drop (nat i) ?T"
    proof -
      have less: "nat i < length ?T" using True 1(2) by auto
      then have "drop (nat i) ?T = ?T ! nat i # drop (Suc (nat i)) ?T"
        by (rule Cons_nth_drop_Suc[symmetric])
      moreover have "?T ! nat i = ns ! nat i" using True 1(2) by auto
      moreover have "nat (i + 1) = Suc (nat i)" using 1(2) by simp
      ultimately show ?thesis by simp
    qed
    finally show ?thesis .
  next
    case False
    then have "first_count ns count i selected = selected"
      by (subst first_count.simps) auto
    moreover have "drop (nat i) ?T = []" using False 1(2) by auto
    ultimately show ?thesis by simp
  qed
qed

lemma SelectNodesForReplication_take:
  "0 \<le> count \<Longrightarrow>
   SelectNodesForReplication cm ks count = Inr (take (nat count) (GetHealthyNodes cm ks))"
  by (auto simp: SelectNodesForReplication_def Let_def first_count_eq)

lemma SelectNodesForReplication_negative:
  "count < 0 \<Longrightarrow> SelectNodesForReplication cm ks count = Inl MakeSliceCapOutOfRange"
  by (simp add: SelectNodesForReplication_def Let_def)

lemma set_GetHealthyNodes:
  "set (GetHealthyNodes cm ks) =
     {node. \<exists>k \<in> set ks. nodes cm k = Some node \<and> Status (node_at cm node) = ''healthy''}"
  by (induction ks) (auto split: option.splits)

lemma length_GetHealthyNodes:
  "distinct ks \<Longrightarrow>
   length (GetHealthyNodes cm ks) =
     card {k \<in> set ks. \<exists>node. nodes cm k = Some node \<and> Status (node_at cm node) = ''healthy''}"
proof (induction ks)
  case Nil
  then show ?case by simp
next
  case (Cons k ks)
  let ?P = "\<lambda>k. \<exists>node. nodes cm k = Some node \<and> Status (node_at cm node) = ''healthy''"
  have split: "{x \<in> set (k # ks). ?P x} = (if ?P k then insert k {x \<in> set ks. ?P x} else {x \<in> set ks. ?P x})"
    by auto
  have fin: "finite {x \<in> set ks. ?P x}" by simp
  have notin: "k \<notin> {x \<in> set ks. ?P x}" using Cons.prems by simp
  have ih: "length (GetHealthyNodes cm ks) = card {x \<in> set ks. ?P x}"
    using Cons by simp
  show ?case
  proof (cases "?P k")
    case True
    then have "length (GetHealthyNodes cm (k # ks)) = Suc (length (GetHealthyNodes cm ks))"
      by auto
    moreover have "card (insert k {x \<in> set ks. ?P x}) = Suc (card {x \<in> set ks. ?P x})"
      using fin notin by (rule card_insert_disjoint)
    then have "card {x \<in> set (k # ks). ?P x} = Suc (card {x \<in> set ks. ?P x})"
      using True by (simp only: split if_True)
    ultimately show ?thesis using ih by simp
  next
    case False
    then have "length (GetHealthyNodes cm (k # ks)) = length (GetHealthyNodes cm ks)"
      by (auto split: option.splits)
    moreover have "card {x \<in> set (k # ks). ?P x} = card {x \<in> set ks. ?P x}"
      using False by (simp only: split if_False)
    ultimately show ?thesis using ih by simp
  qed
qed

lemmas cluster_defs =
  peer_def NewClusterManager_def HandleNodeRegistration_def RegisterNode_def health_step_def

lemma three_nodes_table:
  "nodes three_nodes = [''node-1'' \<mapsto> 0, ''node-2'' \<mapsto> 1, ''node-3'' \<mapsto> 2]"
  by (simp add: three_nodes_def cluster_defs numeral_2_eq_2)

lemma three_nodes_healthy:
  "GetHealthyNodes three_nodes [''node-3'', ''node-2'', ''node-1''] = [1, 0]"
  by (simp add: three_nodes_def cluster_defs)


text \<open>The rounding of the \<open>float64\<close> model at work: integers below \<open>2^53\<close> convert
  exactly, \<open>2^53 + 1\<close> is a tie and goes to the even significand, one third is the double
  \<open>0x3FD5555555555555\<close>, and \<open>2^53 / (2^53 + 1)\<close> is 1.0 as a quotient of doubles.\<close>

lemma bit_length_bounds:
  "0 < i \<Longrightarrow> 2 ^ (bit_length i - 1) \<le> i \<and> i < 2 ^ bit_length i"
proof (induction i rule: bit_length.induct)
  case (1 i)
  show ?case
  proof (cases "i = 1")
    case True
    have "bit_length 1 = Suc (bit_length 0)" by (subst bit_length.simps) simp
    also have "bit_length 0 = 0" by (subst bit_length.simps) simp
    finally show ?thesis using True by simp
  next
    case False
    then have h: "0 < i div 2" using 1(2) by simp
    have b: "bit_length i = Suc (bit_length (i div 2))"
      using 1(2) by (subst bit_length.simps) simp
    have ih: "2 ^ (bit_length (i div 2) - 1) \<le> i div 2 \<and> i div 2 < 2 ^ bit_length (i div 2)"
      using 1(1) 1(2) h by simp
    have pos: "0 < bit_length (i div 2)"
      using h by (subst bit_length.simps) simp
    then obtain k where k: "bit_length (i div 2) = Suc k" by (cases "bit_length (i div 2)") auto
    have "2 * 2 ^ k \<le> 2 * (i div 2)" using ih k by simp
    moreover have "2 * (i div 2) \<le> i" by simp
    ultimately have "2 * 2 ^ k \<le> i" by linarith
    moreover have "i < 2 * 2 ^ Suc k"
    proof -
      have "i div 2 < 2 ^ Suc k" using ih k by simp
      then have "i div 2 + 1 \<le> 2 ^ Suc k" by simp
      moreover have "i = 2 * (i div 2) + i mod 2" by simp
      moreover have "i mod 2 < 2" by simp
      ultimately show ?thesis by linarith
    qed
    ultimately show ?thesis unfolding b k by simp
  qed
qed

lemma float64_of_int64_exact: "\<bar>i\<bar> < 2 ^ 53 \<Longrightarrow> float64_of_int64 i = i"
  by (simp add: float64_of_int64_def)

lemma float64_of_int64_tie: "float64_of_int64 (2 ^ 53 + 1) = 2 ^ 53"
  by code_simp

lemma float64_of_int64_up: "float64_of_int64 (2 ^ 53 + 3) = 2 ^ 53 + 4"
  by code_simp

lemma float64_div_third: "float64_div 1 3 = 6004799503160661 / 2 ^ 54"
  by code_simp

lemma float64_quot_rounds_to_one: "float64_quot (2 ^ 53) (2 ^ 53 + 1) = Fin 1"
  by code_simp

text \<open>
  C5, as the code has it.  For a count that is not negative and a traversal \<open>ks\<close> of the
  table, \<open>SelectNodesForReplication count\<close> returns at most \<open>count\<close> nodes, each of them
  a healthy node of the table; the healthy nodes encountered are exactly the healthy
  entries of the table; when fewer than \<open>count\<close> of them exist it returns all of them,
  otherwise the first \<open>count\<close> encountered.
\<close>

theorem SelectNodesForReplication_spec:
  "distinct ks \<Longrightarrow> set ks = dom (nodes cm) \<Longrightarrow> 0 \<le> count \<Longrightarrow>
   (let H = GetHealthyNodes cm ks
    in \<exists>r. SelectNodesForReplication cm ks count = Inr r
     \<and> int (length r) \<le> count
     \<and> (\<forall>node \<in> set r. Status (node_at cm node) = ''healthy'' \<and> node \<in> ran (nodes cm))
     \<and> set H = {node. \<exists>k. nodes cm k = Some node \<and> Status (node_at cm node) = ''healthy''}
     \<and> length H = card {k. \<exists>node. nodes cm k = Some node \<and> Status (node_at cm node) = ''healthy''}
     \<and> (int (length H) < count \<longrightarrow> r = H)
     \<and> (count \<le> int (length H) \<longrightarrow> r = take (nat count) H))"
proof -
  assume d: "distinct ks" and s: "set ks = dom (nodes cm)" and c: "0 \<le> count"
  let ?H = "GetHealthyNodes cm ks"
  let ?r = "take (nat count) ?H"
  have r: "SelectNodesForReplication cm ks count = Inr ?r"
    using c by (rule SelectNodesForReplication_take)
  have 1: "int (length ?r) \<le> count" using c by auto
  have setH: "set ?H = {node. \<exists>k. nodes cm k = Some node \<and> Status (node_at cm node) = ''healthy''}"
    unfolding set_GetHealthyNodes using s by auto
  have "set ?r \<subseteq> set ?H" by (rule set_take_subset)
  then have 2: "\<forall>node \<in> set ?r. Status (node_at cm node) = ''healthy'' \<and> node \<in> ran (nodes cm)"
    unfolding setH by (auto simp: ran_def)
  have "{k \<in> set ks. \<exists>node. nodes cm k = Some node \<and> Status (node_at cm node) = ''healthy''}
          = {k. \<exists>node. nodes cm k = Some node \<and> Status (node_at cm node) = ''healthy''}"
    using s by auto
  then have 3: "length ?H = card {k. \<exists>node. nodes cm k = Some node \<and> Status (node_at cm node) = ''healthy''}"
    using length_GetHealthyNodes[OF d, of cm] by simp
  have 4: "int (length ?H) < count \<longrightarrow> ?r = ?H" by auto
  show ?thesis
    unfolding Let_def using r 1 2 setH 3 4 by blast
qed

theorem SelectNodesForReplication_spec_witness:
  "distinct [''node-3'', ''node-2'', ''node-1'']
   \<and> set [''node-3'', ''node-2'', ''node-1''] = dom (nodes three_nodes)
   \<and> (0::int) \<le> 1
   \<and> SelectNodesForReplication three_nodes [''node-3'', ''node-2'', ''node-1''] 1 = Inr [1]
   \<and> SelectNodesForReplication three_nodes [''node-3'', ''node-2'', ''node-1''] 3 = Inr [1, 0]"
proof -
  let ?ks = "[''node-3'', ''node-2'', ''node-1'']"
  have d: "distinct ?ks" by simp
  have s: "set ?ks = dom (nodes three_nodes)"
    by (simp add: three_nodes_table insert_commute)
  have c1: "(0::int) \<le> 1" and c3: "(0::int) \<le> 3" by simp_all
  have "\<exists>r. SelectNodesForReplication three_nodes ?ks 1 = Inr r
          \<and> (1 \<le> int (length (GetHealthyNodes three_nodes ?ks))
                \<longrightarrow> r = take (nat 1) (GetHealthyNodes three_nodes ?ks))"
    using SelectNodesForReplication_spec[OF d s c1] unfolding Let_def by blast
  then have r1: "SelectNodesForReplication three_nodes ?ks 1 = Inr [1]"
    unfolding three_nodes_healthy by auto
  have "\<exists>r. SelectNodesForReplication three_nodes ?ks 3 = Inr r
          \<and> (int (length (GetHealthyNodes three_nodes ?ks)) < 3
                \<longrightarrow> r = GetHealthyNodes three_nodes ?ks)"
    using SelectNodesForReplication_spec[OF d s c3] unfolding Let_def by blast
  then have r3: "SelectNodesForReplication three_nodes ?ks 3 = Inr [1, 0]"
    unfolding three_nodes_healthy by auto
  show ?thesis using d s c1 r1 r3 by (intro conjI)
qed

text \<open>
  C5 as stated, for every count, fails: for a negative count the comparison
  \<open>len(nodes) <= count\<close> is false, the code goes on to make a slice of capacity \<open>count\<close>,
  and that panics; nothing is returned.
\<close>

theorem SelectNodesForReplication_negative_count:
  "SelectNodesForReplication three_nodes [''node-3'', ''node-2'', ''node-1''] (- 1)
     = Inl MakeSliceCapOutOfRange"
  by (simp add: SelectNodesForReplication_def Let_def)

text \<open>
  C2.  \<open>SelectNodeForWrite\<close> starts its search for the lowest utilization at 1.0 and
  takes a node only when it is strictly below: on a table whose only healthy node is full
  (\<open>Used = Capacity\<close>) a healthy node exists and the result is nil.
\<close>

theorem SelectNodeForWrite_full_node:
  "GetHealthyNodes self_full [''node-1''] = [1]
   \<and> Used (node_at self_full 1) = 100 \<and> Capacity (node_at self_full 1) = 100
   \<and> SelectNodeForWrite self_full [''node-1''] = None"
  by (simp add: self_full_def cluster_defs SelectNodeForWrite_def utilization_of_def
        float64_quot_def float64_of_int64_def float64_div_def half_even_def Let_def)

lemma f64_less_irrefl: "\<not> f64_less x x"
  by (cases x) simp_all

lemma f64_less_trans: "f64_less x y \<Longrightarrow> f64_less y z \<Longrightarrow> f64_less x z"
  by (cases x; cases y; cases z) simp_all

lemma f64_less_asym: "f64_less x y \<Longrightarrow> \<not> f64_less y x"
  by (cases x; cases y) simp_all

lemma f64_not_less_below: "f64_less c b \<Longrightarrow> \<not> f64_less a b \<Longrightarrow> \<not> f64_less a c"
  by (cases a; cases b; cases c) simp_all

lemma lowest_load_result:
  "lowest_load cm ns bestNode lowestLoad = r \<Longrightarrow>
     (r = bestNode \<and> (\<forall>m \<in> set ns. \<not> f64_less (utilization_of cm m) lowestLoad))
   \<or> (\<exists>pre n post. ns = pre @ n # post \<and> r = Some n
         \<and> f64_less (utilization_of cm n) lowestLoad
         \<and> (\<forall>m \<in> set pre. \<not> f64_less (utilization_of cm m) (utilization_of cm n)
                             \<and> utilization_of cm m \<noteq> utilization_of cm n)
         \<and> (\<forall>m \<in> set post. \<not> f64_less (utilization_of cm m) (utilization_of cm n)))"
proof (induction ns arbitrary: bestNode lowestLoad)
  case Nil
  then show ?case by simp
next
  case (Cons node rest)
  let ?u = "utilization_of cm node"
  show ?case
  proof (cases "f64_less ?u lowestLoad")
    case True
    then have "lowest_load cm rest (Some node) ?u = r"
      using Cons.prems by (simp add: Let_def)
    from Cons.IH[OF this] show ?thesis
    proof
      assume a: "r = Some node \<and> (\<forall>m \<in> set rest. \<not> f64_less (utilization_of cm m) ?u)"
      then have "node # rest = [] @ node # rest \<and> r = Some node \<and> f64_less ?u lowestLoad
          \<and> (\<forall>m \<in> set []. \<not> f64_less (utilization_of cm m) ?u \<and> utilization_of cm m \<noteq> ?u)
          \<and> (\<forall>m \<in> set rest. \<not> f64_less (utilization_of cm m) ?u)"
        using True by simp
      then show ?thesis by blast
    next
      assume "\<exists>pre n post. rest = pre @ n # post \<and> r = Some n
         \<and> f64_less (utilization_of cm n) ?u
         \<and> (\<forall>m \<in> set pre. \<not> f64_less (utilization_of cm m) (utilization_of cm n)
                             \<and> utilization_of cm m \<noteq> utilization_of cm n)
         \<and> (\<forall>m \<in> set post. \<not> f64_less (utilization_of cm m) (utilization_of cm n))"
      then obtain pre n post where p: "rest = pre @ n # post" "r = Some n"
        "f64_less (utilization_of cm n) ?u"
        "\<forall>m \<in> set pre. \<not> f64_less (utilization_of cm m) (utilization_of cm n)
                             \<and> utilization_of cm m \<noteq> utilization_of cm n"
        "\<forall>m \<in> set post. \<not> f64_less (utilization_of cm m) (utilization_of cm n)"
        by blast
      have 1: "f64_less (utilization_of cm n) lowestLoad"
        using p(3) True by (rule f64_less_trans)
      have 2: "\<not> f64_less ?u (utilization_of cm n)" using p(3) by (rule f64_less_asym)
      have 3: "?u \<noteq> utilization_of cm n" using p(3) f64_less_irrefl by auto
      have "node # rest = (node # pre) @ n # post \<and> r = Some n
         \<and> f64_less (utilization_of cm n) lowestLoad
         \<and> (\<forall>m \<in> set (node # pre). \<not> f64_less (utilization_of cm m) (utilization_of cm n)
                             \<and> utilization_of cm m \<noteq> utilization_of cm n)
         \<and> (\<forall>m \<in> set post. \<not> f64_less (utilization_of cm m) (utilization_of cm n))"
        using p 1 2 3 by simp
      then show ?thesis by blast
    qed
  next
    case False
    then have "lowest_load cm rest bestNode lowestLoad = r"
      using Cons.prems by (simp add: Let_def)
    from Cons.IH[OF this] show ?thesis
    proof
      assume "r = bestNode \<and> (\<forall>m \<in> set rest. \<not> f64_less (utilization_of cm m) lowestLoad)"
      then show ?thesis using False by simp
    next
      assume "\<exists>pre n post. rest = pre @ n # post \<and> r = Some n
         \<and> f64_less (utilization_of cm n) lowestLoad
         \<and> (\<forall>m \<in> set pre. \<not> f64_less (utilization_of cm m) (utilization_of cm n)
                             \<and> utilization_of cm m \<noteq> utilization_of cm n)
         \<and> (\<forall>m \<in> set post. \<not> f64_less (utilization_of cm m) (utilization_of cm n))"
      then obtain pre n post where p: "rest = pre @ n # post" "r = Some n"
        "f64_less (utilization_of cm n) lowestLoad"
        "\<forall>m \<in> set pre. \<not> f64_less (utilization_of cm m) (utilization_of cm n)
                             \<and> utilization_of cm m \<noteq> utilization_of cm n"
        "\<forall>m \<in> set post. \<not> f64_less (utilization_of cm m) (utilization_of cm n)"
        by blast
      have 2: "\<not> f64_less ?u (utilization_of cm n)"
        using p(3) False by (rule f64_not_less_below)
      have 3: "?u \<noteq> utilization_of cm n" using p(3) False by auto
      have "node # rest = (node # pre) @ n # post \<and> r = Some n
         \<and> f64_less (utilization_of cm n) lowestLoad
         \<and> (\<forall>m \<in> set (node # pre). \<not> f64_less (utilization_of cm m) (utilization_of cm n)
                             \<and> utilization_of cm m \<noteq> utilization_of cm n)
         \<and> (\<forall>m \<in> set post. \<not> f64_less (utilization_of cm m) (utilization_of cm n))"
        using p 2 3 by simp
      then show ?thesis by blast
    qed
  qed
qed

text \<open>
  What \<open>SelectNodeForWrite\<close> does return: nil exactly when no healthy node has a
  utilization below 1.0; otherwise a healthy node of utilization below 1.0 such that no
  healthy node has a lower one, and the first of the traversal with that utilization.
\<close>

lemma SelectNodeForWrite_unfold:
  "SelectNodeForWrite cm ks = lowest_load cm (GetHealthyNodes cm ks) None (Fin 1)"
  by (cases "GetHealthyNodes cm ks") (simp_all add: SelectNodeForWrite_def Let_def)

lemma SelectNodeForWrite_None:
  "SelectNodeForWrite cm ks = None \<longleftrightarrow>
     (\<forall>m \<in> set (GetHealthyNodes cm ks). \<not> f64_less (utilization_of cm m) (Fin 1))"
  using lowest_load_result[of cm "GetHealthyNodes cm ks" None "Fin 1" "SelectNodeForWrite cm ks"]
  unfolding SelectNodeForWrite_unfold by auto

lemma SelectNodeForWrite_Some:
  assumes "SelectNodeForWrite cm ks = Some n"
  shows "\<exists>pre post. GetHealthyNodes cm ks = pre @ n # post
         \<and> Status (node_at cm n) = ''healthy''
         \<and> f64_less (utilization_of cm n) (Fin 1)
         \<and> (\<forall>m \<in> set (GetHealthyNodes cm ks).
               \<not> f64_less (utilization_of cm m) (utilization_of cm n))
         \<and> (\<forall>m \<in> set pre. utilization_of cm m \<noteq> utilization_of cm n)"
proof -
  from lowest_load_result[of cm "GetHealthyNodes cm ks" None "Fin 1" "Some n"] assms
  obtain pre post where p: "GetHealthyNodes cm ks = pre @ n # post"
    "f64_less (utilization_of cm n) (Fin 1)"
    "\<forall>m \<in> set pre. \<not> f64_less (utilization_of cm m) (utilization_of cm n)
                             \<and> utilization_of cm m \<noteq> utilization_of cm n"
    "\<forall>m \<in> set post. \<not> f64_less (utilization_of cm m) (utilization_of cm n)"
    unfolding SelectNodeForWrite_unfold by auto
  have "n \<in> set (GetHealthyNodes cm ks)" using p(1) by simp
  then have h: "Status (node_at cm n) = ''healthy''" unfolding set_GetHealthyNodes by blast
  have "\<forall>m \<in> set (GetHealthyNodes cm ks). \<not> f64_less (utilization_of cm m) (utilization_of cm n)"
    unfolding p(1) using p(3,4) f64_less_irrefl by auto
  then show ?thesis using p h by blast
qed

lemma self_pinned_New: "self_pinned nodeID (NewClusterManager nodeID nodeAddress now)"
  by (simp add: self_pinned_def NewClusterManager_def)

lemma self_pinned_health_step:
  "self_pinned nodeID cm \<Longrightarrow> self_pinned nodeID (health_step now pingNode k cm)"
  unfolding self_pinned_def health_step_def
  by (cases "nodes cm k") auto

lemma self_pinned_performHealthCheck:
  "self_pinned nodeID cm \<Longrightarrow> self_pinned nodeID (performHealthCheck now pingNode ks cm)"
  by (induction ks arbitrary: cm) (simp_all add: self_pinned_health_step)

lemma self_pinned_Registration:
  assumes "self_pinned nodeID cm" and "\<not> registers_as nodeID (Registration now posted)"
  shows "self_pinned nodeID (HandleNodeRegistration now posted cm)"
proof (cases posted)
  case None
  then show ?thesis using assms by (simp add: HandleNodeRegistration_def)
next
  case (Some n)
  then have "ID n \<noteq> nodeID" using assms(2) by simp
  then show ?thesis using assms(1) Some
    unfolding self_pinned_def HandleNodeRegistration_def RegisterNode_def
    by (auto simp: Let_def less_Suc_eq)
qed

lemma self_pinned_run:
  "self_pinned nodeID cm \<Longrightarrow> \<forall>e \<in> set es. \<not> registers_as nodeID e \<Longrightarrow>
   self_pinned nodeID (cluster_run es cm)"
proof (induction es arbitrary: cm)
  case Nil
  then show ?case by simp
next
  case (Cons e es)
  show ?case
  proof (cases e)
    case (Registration now posted)
    then show ?thesis
      using Cons self_pinned_Registration[of nodeID cm now posted] by simp
  next
    case (Sweep now pingNode ks)
    then show ?thesis
      using Cons self_pinned_performHealthCheck[of nodeID cm now pingNode ks] by simp
  qed
qed

lemma self_pinned_healthy:
  assumes "self_pinned nodeID cm" and "set ks = dom (nodes cm)"
  shows "currentNode cm \<in> set (GetHealthyNodes cm ks)"
  using assms unfolding set_GetHealthyNodes self_pinned_def by auto

text \<open>
  C10, as the code has it.  As long as no descriptor carrying the self node's own ID is
  registered, the table holds the self node under its ID with Status healthy after any
  registrations and sweeps: it is inserted healthy at construction and the sweep skips it.
  Then a traversal of the table by \<open>GetHealthyNodes\<close> is never empty, and
  \<open>SelectNodesForReplication n\<close> returns at least one node for \<open>n \<ge> 1\<close>.
\<close>

theorem self_stays_healthy:
  assumes "\<forall>e \<in> set es. \<not> registers_as nodeID e"
    and "set ks = dom (nodes (cluster_run es (NewClusterManager nodeID nodeAddress t0)))"
  shows "let cm = cluster_run es (NewClusterManager nodeID nodeAddress t0)
         in nodes cm nodeID = Some (currentNode cm)
          \<and> ID (node_at cm (currentNode cm)) = nodeID
          \<and> Status (node_at cm (currentNode cm)) = ''healthy''
          \<and> GetHealthyNodes cm ks \<noteq> []
          \<and> (1 \<le> n \<longrightarrow>
                (\<exists>ns. SelectNodesForReplication cm ks n = Inr ns \<and> ns \<noteq> []))"
proof -
  let ?cm = "cluster_run es (NewClusterManager nodeID nodeAddress t0)"
  have pin: "self_pinned nodeID ?cm"
    using assms(1) self_pinned_run[OF self_pinned_New] by simp
  then have "currentNode ?cm \<in> set (GetHealthyNodes ?cm ks)"
    using assms(2) by (rule self_pinned_healthy)
  then have ne: "GetHealthyNodes ?cm ks \<noteq> []" by auto
  have "1 \<le> n \<Longrightarrow> \<exists>ns. SelectNodesForReplication ?cm ks n = Inr ns \<and> ns \<noteq> []"
    using ne by (simp add: SelectNodesForReplication_take)
  then show ?thesis using pin ne by (auto simp: self_pinned_def Let_def)
qed

theorem self_stays_healthy_witness:
  "\<not> registers_as ''node-1'' (Registration 5 (Some (peer ''node-2'' ''10.0.0.2:8080'' ''unknown'' 100 40)))
   \<and> \<not> registers_as ''node-1'' (Registration 6 (Some (peer ''node-3'' ''10.0.0.3:8080'' ''unknown'' 100 10)))
   \<and> set [''node-3'', ''node-2'', ''node-1''] = dom (nodes three_nodes)
   \<and> nodes three_nodes ''node-1'' = Some (currentNode three_nodes)
   \<and> Status (node_at three_nodes (currentNode three_nodes)) = ''healthy''
   \<and> GetHealthyNodes three_nodes [''node-3'', ''node-2'', ''node-1''] \<noteq> []
   \<and> SelectNodesForReplication three_nodes [''node-3'', ''node-2'', ''node-1''] 1 = Inr [1]"
proof -
  let ?es = "[Registration 5 (Some (peer ''node-2'' ''10.0.0.2:8080'' ''unknown'' 100 40)),
              Registration 6 (Some (peer ''node-3'' ''10.0.0.3:8080'' ''unknown'' 100 10)),
              Sweep 10 (\<lambda>n. Address n = ''10.0.0.2:8080'') [''node-3'', ''node-1'', ''node-2'']]"
  let ?ks = "[''node-3'', ''node-2'', ''node-1'']"
  have r2: "\<not> registers_as ''node-1'' (Registration 5 (Some (peer ''node-2'' ''10.0.0.2:8080'' ''unknown'' 100 40)))"
    by (simp add: peer_def)
  have r3: "\<not> registers_as ''node-1'' (Registration 6 (Some (peer ''node-3'' ''10.0.0.3:8080'' ''unknown'' 100 10)))"
    by (simp add: peer_def)
  have h1: "\<forall>e \<in> set ?es. \<not> registers_as ''node-1'' e"
    using r2 r3 by simp
  have s: "set ?ks = dom (nodes three_nodes)"
    by (simp add: three_nodes_table insert_commute)
  then have h2: "set ?ks = dom (nodes (cluster_run ?es (NewClusterManager ''node-1'' ''10.0.0.1:8080'' 0)))"
    by (simp only: three_nodes_def)
  have "let cm = three_nodes
        in nodes cm ''node-1'' = Some (currentNode cm)
         \<and> ID (node_at cm (currentNode cm)) = ''node-1''
         \<and> Status (node_at cm (currentNode cm)) = ''healthy''
         \<and> GetHealthyNodes cm ?ks \<noteq> []
         \<and> (1 \<le> (1::int) \<longrightarrow>
               (\<exists>ns. SelectNodesForReplication cm ?ks 1 = Inr ns \<and> ns \<noteq> []))"
    using self_stays_healthy[OF h1 h2, of 1] by (simp only: three_nodes_def)
  then have a: "nodes three_nodes ''node-1'' = Some (currentNode three_nodes)
      \<and> Status (node_at three_nodes (currentNode three_nodes)) = ''healthy''
      \<and> GetHealthyNodes three_nodes ?ks \<noteq> []
      \<and> (\<exists>ns. SelectNodesForReplication three_nodes ?ks 1 = Inr ns \<and> ns \<noteq> [])"
    unfolding Let_def by simp
  have "SelectNodesForReplication three_nodes ?ks 1 = Inr [1]"
    using a by (simp add: SelectNodesForReplication_take three_nodes_healthy
                  del: GetHealthyNodes.simps)
  then show ?thesis using a r2 r3 s by blast
qed

text \<open>
  C10 as stated fails: \<open>RegisterNode\<close> stores whatever descriptor it is given under
  the descriptor's ID.  After a registration under the self ID with Status unhealthy the
  table's only entry is unhealthy, \<open>GetHealthyNodes\<close> is empty and
  \<open>SelectNodesForReplication 1\<close> returns no node.
\<close>

theorem self_demoted_no_healthy_node:
  "dom (nodes self_demoted) = {''node-1''}
   \<and> Status (node_at self_demoted (the (nodes self_demoted ''node-1''))) = ''unhealthy''
   \<and> GetHealthyNodes self_demoted [''node-1''] = []
   \<and> SelectNodesForReplication self_demoted [''node-1''] 1 = Inr []"
  by (simp add: self_demoted_def cluster_defs SelectNodesForReplication_take)

section \<open>Properties of the replication coordinator\<close>

lemma GetHealthyNodes_none:
  assumes "\<forall>k node. nodes cm k = Some node \<longrightarrow> Status (node_at cm node) \<noteq> ''healthy''"
  shows "GetHealthyNodes cm ks = []"
proof -
  have "set (GetHealthyNodes cm ks) = {}"
    unfolding set_GetHealthyNodes using assms by auto
  then show ?thesis by simp
qed

text \<open>
  C1, as the code has it.  When no node of the membership table, the self node included,
  has Status healthy and the replication factor is not negative, \<open>ReplicateObject\<close>
  returns the error \<open>no healthy nodes available for replication\<close> and leaves the manager,
  its task map included, as it was.
\<close>

theorem ReplicateObject_no_healthy_node:
  assumes "\<forall>k node. nodes (clusterManager rm) k = Some node
             \<longrightarrow> Status (node_at (clusterManager rm) node) \<noteq> ''healthy''"
    and "0 \<le> replicationFactor rm"
  shows "ReplicateObject ks now obj rm = (Inl NoHealthyNodes, rm)"
  using GetHealthyNodes_none[OF assms(1), of ks] assms(2)
  by (simp add: ReplicateObject_def SelectNodesForReplication_take)

text \<open>With a negative replication factor the selection of targets panics, and the panic
  leaves \<open>ReplicateObject\<close> before anything is stored.\<close>

lemma ReplicateObject_negative_factor:
  "replicationFactor rm < 0 \<Longrightarrow>
   ReplicateObject ks now obj rm = (Inl MakeSliceCapOutOfRange, rm)"
  by (simp add: ReplicateObject_def SelectNodesForReplication_negative)

lemma self_demoted_table: "nodes self_demoted = [''node-1'' \<mapsto> 1]"
  by (simp add: self_demoted_def cluster_defs)

lemma self_demoted_Status: "Status (node_at self_demoted 1) = ''unhealthy''"
  by (simp add: self_demoted_def cluster_defs)

theorem ReplicateObject_no_healthy_node_witness:
  "nodes (clusterManager (manager_on self_demoted)) = [''node-1'' \<mapsto> 1]
   \<and> Status (node_at (clusterManager (manager_on self_demoted)) 1) = ''unhealthy''
   \<and> 0 \<le> replicationFactor (manager_on self_demoted)
   \<and> ReplicateObject [''node-1''] 7 0 (manager_on self_demoted)
       = (Inl NoHealthyNodes, manager_on self_demoted)"
proof -
  have t: "nodes (clusterManager (manager_on self_demoted)) = [''node-1'' \<mapsto> 1]"
    by (simp add: manager_on_def self_demoted_table)
  have u: "Status (node_at (clusterManager (manager_on self_demoted)) 1) = ''unhealthy''"
    using self_demoted_Status by (simp add: manager_on_def)
  have h: "\<forall>k node. nodes (clusterManager (manager_on self_demoted)) k = Some node
             \<longrightarrow> Status (node_at (clusterManager (manager_on self_demoted)) node) \<noteq> ''healthy''"
    using u unfolding t by (auto split: if_splits)
  have f: "0 \<le> replicationFactor (manager_on self_demoted)"
    by (simp add: manager_on_def)
  show ?thesis
    using t u f ReplicateObject_no_healthy_node[OF h f, of "[''node-1'']" 7 0] by blast
qed

text \<open>
  C1 as stated fails: the healthy nodes that \<open>ReplicateObject\<close> selects from include the
  self node.  On a node that knows no peer at all, so that no peer is healthy, the call
  succeeds and files a task whose single target is the node itself.
\<close>

theorem ReplicateObject_self_only:
  "nodes (clusterManager (manager_on (NewClusterManager ''node-1'' ''10.0.0.1:8080'' 0)))
     = [''node-1'' \<mapsto> 0]
   \<and> pendingReplications (manager_on (NewClusterManager ''node-1'' ''10.0.0.1:8080'' 0)) ''0a1b'' = None
   \<and> fst (ReplicateObject [''node-1''] 7 0
            (manager_on (NewClusterManager ''node-1'' ''10.0.0.1:8080'' 0))) = Inr 0
   \<and> pendingReplications
        (snd (ReplicateObject [''node-1''] 7 0
                (manager_on (NewClusterManager ''node-1'' ''10.0.0.1:8080'' 0)))) ''0a1b'' = Some 0
   \<and> TargetNodes
        (task_at (snd (ReplicateObject [''node-1''] 7 0
                         (manager_on (NewClusterManager ''node-1'' ''10.0.0.1:8080'' 0)))) 0)
       = [''node-1'']"
  by (simp add: ReplicateObject_def SelectNodesForReplication_take manager_on_def
        NewClusterManager_def report_def GetCurrentNode_def)

lemma io_Copy_buffer:
  "io_Copy buffer_Write b cs fail = (b @ concat cs, int (length (concat cs)), fail)"
  by (induction cs arbitrary: b) (simp_all add: buffer_Write_def)

lemma replicateToNode_frame:
  "clusterManager rm' = clusterManager rm \<Longrightarrow> descriptor_at rm' = descriptor_at rm \<Longrightarrow>
   replicateToNode net ks rm' nID obj buffer = replicateToNode net ks rm nID obj buffer"
  by (simp add: replicateToNode_def)

lemma fan_out_count:
  "fan_out net order rm obj buffer targets c =
     c + int (length (filter (\<lambda>nID. replicateToNode net (order nID) rm nID obj buffer) targets))"
  by (induction targets arbitrary: c) simp_all

lemma fan_out_frame:
  assumes "clusterManager rm' = clusterManager rm" and "descriptor_at rm' = descriptor_at rm"
  shows "fan_out net order rm' obj buffer targets c = fan_out net order rm obj buffer targets c"
proof -
  have "\<And>nID. replicateToNode net (order nID) rm' nID obj buffer
              = replicateToNode net (order nID) rm nID obj buffer"
    using assms by (rule replicateToNode_frame)
  then show ?thesis by (simp add: fan_out_count)
qed

lemma fan_out_positive:
  "(0 < fan_out net order rm obj buffer targets 0) =
     (\<exists>nID \<in> set targets. replicateToNode net (order nID) rm nID obj buffer)"
  by (simp add: fan_out_count filter_empty_conv)

lemma executeReplication_cases:
  "executeReplication net order now task obj data rm =
     (let rm1 = store_task task
                  (rm\<lparr>task_at := (task_at rm)
                        (task := (task_at rm task)\<lparr>task_Status := ''in_progress''\<rparr>)\<rparr>)
      in case failure data of
           Some err \<Rightarrow> markTaskFailed now task (''Failed to buffer data: '' @ err) rm1
         | None \<Rightarrow>
             if \<exists>nID \<in> set (TargetNodes (task_at rm task)).
                  replicateToNode net (order nID) rm nID obj (concat (chunks data))
             then store_task task (rm1\<lparr>task_at := (task_at rm1)
                               (task := (task_at rm1 task)
                                  \<lparr>task_Status := ''completed'', CompletedAt := Some now\<rparr>)\<rparr>)
             else store_task task (markTaskFailed now task ''Failed to replicate to any target node'' rm1))"
proof -
  let ?rm1 = "store_task task
                  (rm\<lparr>task_at := (task_at rm)
                        (task := (task_at rm task)\<lparr>task_Status := ''in_progress''\<rparr>)\<rparr>)"
  have f1: "clusterManager ?rm1 = clusterManager rm" "descriptor_at ?rm1 = descriptor_at rm"
    by (simp_all add: store_task_def)
  have t1: "TargetNodes (task_at ?rm1 task) = TargetNodes (task_at rm task)"
    by (simp add: store_task_def)
  have pos: "(0 < fan_out net order ?rm1 obj (concat (chunks data)) (TargetNodes (task_at ?rm1 task)) 0)
        = (\<exists>nID \<in> set (TargetNodes (task_at rm task)).
                  replicateToNode net (order nID) rm nID obj (concat (chunks data)))"
    unfolding t1 fan_out_frame[OF f1] by (rule fan_out_positive)
  show ?thesis
    unfolding executeReplication_def io_Copy_buffer Let_def
    using pos by (cases "failure data") (simp_all add: Let_def)
qed

text \<open>
  C8.  When \<open>executeReplication\<close> has run to its end, the task has \<open>CompletedAt\<close> set
  and is filed under its object ID.  If buffering the payload failed, its Status is
  \<open>failed\<close> and its Error names the buffering failure.  Otherwise its Status is
  \<open>completed\<close> exactly when the attempt for at least one target returned true (the
  target was found healthy and answered the push with 200), and else \<open>failed\<close> with the
  Error \<open>Failed to replicate to any target node\<close>.
\<close>

theorem executeReplication_outcome:
  "let rm' = executeReplication net order now task obj data rm;
       t = task_at rm task;
       t' = task_at rm' task
   in CompletedAt t' = Some now
    \<and> pendingReplications rm' (ObjectID t) = Some task
    \<and> (case failure data of
          Some err \<Rightarrow>
            task_Status t' = ''failed'' \<and> Error t' = ''Failed to buffer data: '' @ err
        | None \<Rightarrow>
            if \<exists>nID \<in> set (TargetNodes t).
                 replicateToNode net (order nID) rm nID obj (concat (chunks data))
            then task_Status t' = ''completed'' \<and> Error t' = Error t
            else task_Status t' = ''failed''
               \<and> Error t' = ''Failed to replicate to any target node'')"
  unfolding executeReplication_cases
  by (cases "failure data") (simp_all add: Let_def store_task_def markTaskFailed_def)

lemma ReplicateObject_frame:
  "(snd (ReplicateObject ks now obj rm))
     \<lparr>task_at := task_at rm, task_brk := task_brk rm,
      pendingReplications := pendingReplications rm\<rparr> = rm"
  by (simp add: ReplicateObject_def Let_def split: sum.splits)

lemma executeReplication_frame:
  "(executeReplication net order now task obj data rm)
     \<lparr>task_at := task_at rm, task_brk := task_brk rm,
      pendingReplications := pendingReplications rm\<rparr> = rm"
  unfolding executeReplication_cases
  by (cases "failure data") (simp_all add: Let_def store_task_def markTaskFailed_def)

lemma all_healthy_nodes:
  "GetHealthyNodes all_healthy [''node-1'', ''node-2'', ''node-3''] = [0, 1, 2]"
  by (simp add: all_healthy_def cluster_defs)

lemma all_healthy_node_at:
  "node_at all_healthy 0 = \<lparr>ID = ''node-1'', Address = ''10.0.0.1:8080'', Status = ''healthy'',
      LastSeen = 0, Load = Fin 0, Capacity = 10737418240, Used = 0\<rparr>"
  "node_at all_healthy (Suc 0) = \<lparr>ID = ''node-2'', Address = ''10.0.0.2:8080'', Status = ''healthy'',
      LastSeen = 10, Load = Fin 0, Capacity = 100, Used = 40\<rparr>"
  "node_at all_healthy 2 = \<lparr>ID = ''node-3'', Address = ''10.0.0.3:8080'', Status = ''healthy'',
      LastSeen = 10, Load = Fin 0, Capacity = 100, Used = 10\<rparr>"
  "currentNode all_healthy = 0"
  by (simp_all add: all_healthy_def cluster_defs)

lemma filed_eq:
  "filed = (manager_on all_healthy)
     \<lparr>task_at := (\<lambda>_. zero_Task)
        (0 := \<lparr>ObjectID = ''0a1b'', ObjectKey = ''report.csv'', SourceNode = ''node-1'',
               TargetNodes = [''node-1'', ''node-2'', ''node-3''], task_Status = ''pending'',
               task_CreatedAt = 7, CompletedAt = None, Error = []\<rparr>),
      task_brk := 1,
      pendingReplications := [''0a1b'' \<mapsto> 0]\<rparr>"
  unfolding filed_def ReplicateObject_def
  by (simp add: SelectNodesForReplication_take manager_on_def all_healthy_nodes
        all_healthy_node_at report_def GetCurrentNode_def
        del: GetHealthyNodes.simps)

lemma pushes:
  "replicateToNode two_of_three [''node-1'', ''node-2'', ''node-3''] filed ''node-1'' 0 ''hello''"
  "replicateToNode two_of_three [''node-1'', ''node-2'', ''node-3''] filed ''node-2'' 0 ''hello''"
  "\<not> replicateToNode two_of_three [''node-1'', ''node-2'', ''node-3''] filed ''node-3'' 0 ''hello''"
  unfolding replicateToNode_def filed_eq
  by (simp_all add: manager_on_def all_healthy_nodes all_healthy_node_at report_def
        GetCurrentNode_def two_of_three_def del: GetHealthyNodes.simps)

theorem executeReplication_outcome_witness:
  "TargetNodes (task_at filed 0) = [''node-1'', ''node-2'', ''node-3'']
   \<and> replicateToNode two_of_three [''node-1'', ''node-2'', ''node-3''] filed ''node-1'' 0 ''hello''
   \<and> replicateToNode two_of_three [''node-1'', ''node-2'', ''node-3''] filed ''node-2'' 0 ''hello''
   \<and> \<not> replicateToNode two_of_three [''node-1'', ''node-2'', ''node-3''] filed ''node-3'' 0 ''hello''
   \<and> task_Status
        (task_at (executeReplication two_of_three (\<lambda>_. [''node-1'', ''node-2'', ''node-3'']) 9 0 0
                    (Reader [''he'', ''llo''] None) filed) 0) = ''completed''
   \<and> CompletedAt
        (task_at (executeReplication two_of_three (\<lambda>_. [''node-1'', ''node-2'', ''node-3'']) 9 0 0
                    (Reader [''he'', ''llo''] None) filed) 0) = Some 9"
proof -
  let ?ks = "[''node-1'', ''node-2'', ''node-3'']"
  let ?data = "Reader [''he'', ''llo''] None"
  have T: "TargetNodes (task_at filed 0) = ?ks" by (simp add: filed_eq)
  have ex: "\<exists>nID \<in> set (TargetNodes (task_at filed 0)).
              replicateToNode two_of_three ((\<lambda>_. ?ks) nID) filed nID 0 (concat (chunks ?data))"
    using pushes(1) by (simp add: T)
  have "task_Status (task_at (executeReplication two_of_three (\<lambda>_. ?ks) 9 0 0 ?data filed) 0)
          = ''completed''
      \<and> CompletedAt (task_at (executeReplication two_of_three (\<lambda>_. ?ks) 9 0 0 ?data filed) 0)
          = Some 9"
    using executeReplication_outcome[of two_of_three "\<lambda>_. ?ks" 9 0 0 ?data filed] ex
    unfolding Let_def by simp
  then show ?thesis using T pushes by blast
qed

lemma frame_fields:
  assumes "rm'\<lparr>task_at := ta, task_brk := tb, pendingReplications := pr\<rparr> = rm"
  shows "descriptor_at rm' = descriptor_at rm" and "clusterManager rm' = clusterManager rm"
    and "replicationFactor rm' = replicationFactor rm"
proof -
  have "descriptor_at (rm'\<lparr>task_at := ta, task_brk := tb, pendingReplications := pr\<rparr>)
          = descriptor_at rm'" by simp
  then show "descriptor_at rm' = descriptor_at rm" using assms by simp
  have "clusterManager (rm'\<lparr>task_at := ta, task_brk := tb, pendingReplications := pr\<rparr>)
          = clusterManager rm'" by simp
  then show "clusterManager rm' = clusterManager rm" using assms by simp
  have "replicationFactor (rm'\<lparr>task_at := ta, task_brk := tb, pendingReplications := pr\<rparr>)
          = replicationFactor rm'" by simp
  then show "replicationFactor rm' = replicationFactor rm" using assms by simp
qed

lemma replicate_to_end_frame:
  "(snd (replicate_to_end net ks order now now' obj data rm))
     \<lparr>task_at := task_at rm, task_brk := task_brk rm,
      pendingReplications := pendingReplications rm\<rparr> = rm"
proof (cases "ReplicateObject ks now obj rm")
  case (Pair r rm1)
  have f1: "rm1\<lparr>task_at := task_at rm, task_brk := task_brk rm,
                pendingReplications := pendingReplications rm\<rparr> = rm"
    using ReplicateObject_frame[where ks=ks and now=now and obj=obj and rm=rm] Pair by simp
  show ?thesis
  proof (cases r)
    case (Inl e)
    then show ?thesis using Pair f1 by (simp add: replicate_to_end_def)
  next
    case (Inr task)
    let ?rm2 = "executeReplication net order now' task obj data rm1"
    have f2: "?rm2\<lparr>task_at := task_at rm1, task_brk := task_brk rm1,
                 pendingReplications := pendingReplications rm1\<rparr> = rm1"
      by (rule executeReplication_frame)
    have "?rm2\<lparr>task_at := task_at rm, task_brk := task_brk rm,
                 pendingReplications := pendingReplications rm\<rparr>
          = (?rm2\<lparr>task_at := task_at rm1, task_brk := task_brk rm1,
                 pendingReplications := pendingReplications rm1\<rparr>)
              \<lparr>task_at := task_at rm, task_brk := task_brk rm,
                 pendingReplications := pendingReplications rm\<rparr>"
      by simp
    also have "\<dots> = rm" unfolding f2 by (rule f1)
    finally show ?thesis using Pair Inr by (simp add: replicate_to_end_def)
  qed
qed

text \<open>
  C9.  Neither \<open>ReplicateObject\<close> nor \<open>executeReplication\<close>, whatever the reader, the
  network and the targets do, writes to the memory of the descriptors or to the membership
  component: after the task has reached its terminal status every descriptor, and so the
  Replicas list of the one that was handed over, is as it was when \<open>ReplicateObject\<close> was
  called, and the manager differs from the one before at most in the task memory and the
  task map.
\<close>

theorem replication_leaves_descriptor:
  "descriptor_at (snd (ReplicateObject ks now obj rm)) = descriptor_at rm
   \<and> descriptor_at (executeReplication net order now' task obj data rm) = descriptor_at rm
   \<and> descriptor_at (snd (replicate_to_end net ks order now now' obj data rm)) = descriptor_at rm
   \<and> Replicas (descriptor_at (snd (replicate_to_end net ks order now now' obj data rm)) obj)
       = Replicas (descriptor_at rm obj)
   \<and> clusterManager (snd (replicate_to_end net ks order now now' obj data rm)) = clusterManager rm
   \<and> (snd (replicate_to_end net ks order now now' obj data rm))
        \<lparr>task_at := task_at rm, task_brk := task_brk rm,
         pendingReplications := pendingReplications rm\<rparr> = rm"
  using frame_fields(1)[OF ReplicateObject_frame]
        frame_fields(1)[OF executeReplication_frame]
        frame_fields(1,2)[OF replicate_to_end_frame]
        replicate_to_end_frame
  by simp

section \<open>Properties of the object store\<close>

lemma io_Copy_multi:
  "io_Copy (multi_Write space) (f, h) cs fail = ((f', h'), n, None) \<Longrightarrow>
   f' = f @ concat cs \<and> h' = h @ concat cs \<and> n = int (length (concat cs)) \<and> fail = None"
proof (induction cs arbitrary: f h n)
  case Nil
  then show ?case by simp
next
  case (Cons c cs)
  show ?case
  proof (cases "multi_Write space (f, h) c")
    case (Inl e)
    then show ?thesis using Cons.prems by simp
  next
    case (Inr w)
    then have w: "w = (f @ c, h @ c)"
      by (auto simp: multi_Write_def split: option.splits if_splits)
    obtain n0 where r: "io_Copy (multi_Write space) (f @ c, h @ c) cs fail = ((f', h'), n0, None)"
      and n: "n = int (length c) + n0"
      using Cons.prems Inr w by (auto split: prod.splits)
    from Cons.IH[OF r] n show ?thesis by simp
  qed
qed

lemma Put_success:
  assumes "Put pf env key data contentType fs = (Inr obj, fs')"
  defines "filePath \<equiv> filepath_Join pf (basePath fs)
                        (hex (md5_Sum pf (key @ time_String pf (now_id env))))"
  shows "failure data = None"
    and "obj = object_brk fs"
    and "fs' = saveMetadata
                 (fs\<lparr>files := (files fs)(filePath \<mapsto> concat (chunks data)),
                     object_at := (object_at fs)
                       (obj := \<lparr>obj_ID = hex (md5_Sum pf (key @ time_String pf (now_id env))),
                                Key = key, Size = int (length (concat (chunks data))),
                                ContentType = contentType,
                                Checksum = hex (md5_Sum pf (concat (chunks data))),
                                CreatedAt = now_created env, UpdatedAt = now_updated env,
                                AccessCount = 0, LastAccess = now_access env,
                                Metadata = Map.empty, StorageTier = ''hot'',
                                Replicas = [\<lparr>NodeID = ''node-1'', FilePath = filePath,
                                             replica_Status = ''active''\<rparr>]\<rparr>),
                     object_brk := Suc obj,
                     objects := (objects fs)(key \<mapsto> obj)\<rparr>)"
proof -
  obtain wfile whash written err where
    c: "io_Copy (multi_Write (space_left env)) ([], []) (chunks data) (failure data)
          = ((wfile, whash), written, err)"
    by (metis prod.exhaust)
  have ce: "create_error env = None"
    using assms(1) by (cases "create_error env") (simp_all add: Put_def Let_def)
  have e: "err = None"
    using assms(1) ce c by (cases err) (simp_all add: Put_def Let_def)
  from io_Copy_multi[OF c[unfolded e]]
  have f: "wfile = concat (chunks data)" "whash = concat (chunks data)"
    "written = int (length (concat (chunks data)))" and fl: "failure data = None"
    by simp_all
  show "failure data = None" by (rule fl)
  show o: "obj = object_brk fs"
    using assms(1) ce c e by (simp add: Put_def Let_def)
  show "fs' = saveMetadata
                 (fs\<lparr>files := (files fs)(filePath \<mapsto> concat (chunks data)),
                     object_at := (object_at fs)
                       (obj := \<lparr>obj_ID = hex (md5_Sum pf (key @ time_String pf (now_id env))),
                                Key = key, Size = int (length (concat (chunks data))),
                                ContentType = contentType,
                                Checksum = hex (md5_Sum pf (concat (chunks data))),
                                CreatedAt = now_created env, UpdatedAt = now_updated env,
                                AccessCount = 0, LastAccess = now_access env,
                                Metadata = Map.empty, StorageTier = ''hot'',
                                Replicas = [\<lparr>NodeID = ''node-1'', FilePath = filePath,
                                             replica_Status = ''active''\<rparr>]\<rparr>),
                     object_brk := Suc obj,
                     objects := (objects fs)(key \<mapsto> obj)\<rparr>)"
    using assms(1) ce c e f unfolding filePath_def o
    by (simp add: Put_def Let_def)
qed

text \<open>
  C3.  When \<open>Put key\<close> of a payload succeeds, the reader delivered all its chunks, and a
  \<open>Get key\<close> that follows (whose \<open>os.Open\<close> of the existing file does not fail) returns
  exactly the bytes that went in, together with the descriptor, whose Checksum is the
  hexadecimal MD5 digest of those bytes.
\<close>

theorem Put_then_Get:
  assumes "Put pf env key data contentType fs = (Inr obj, fs')"
    and "open_error genv = None"
  shows "failure data = None
       \<and> fst (Get genv key fs') = Inr (concat (chunks data), obj)
       \<and> Checksum (object_at (snd (Get genv key fs')) obj)
           = hex (md5_Sum pf (concat (chunks data)))"
  using assms(2) Put_success[OF assms(1)]
  by (simp add: Get_def saveMetadata_def os_Open_def Let_def)

lemma stored_eq:
  "Put stand_in calm ''report.csv'' (Reader [''he'', ''llo''] None) ''text/csv'' empty_store
     = (Inr 0, stored)"
  by (simp add: stored_def Put_def calm_def multi_Write_def Let_def empty_store_def)

theorem Put_then_Get_witness:
  "Put stand_in calm ''report.csv'' (Reader [''he'', ''llo''] None) ''text/csv'' empty_store
     = (Inr 0, stored)
   \<and> open_error \<lparr>now_get = 8, open_error = None\<rparr> = None
   \<and> fst (Get \<lparr>now_get = 8, open_error = None\<rparr> ''report.csv'' stored) = Inr (''hello'', 0)
   \<and> Checksum (object_at (snd (Get \<lparr>now_get = 8, open_error = None\<rparr> ''report.csv'' stored)) 0)
       = hex (md5_Sum stand_in ''hello'')"
proof -
  have o: "open_error \<lparr>now_get = 8, open_error = None\<rparr> = None" by simp
  show ?thesis
    using stored_eq o Put_then_Get[OF stored_eq o] by simp
qed

text \<open>
  C4.  When \<open>Put\<close> fails while the payload is streamed to the new file (the reader fails
  or a write to the file fails), the file it created is unlinked and nothing else is
  touched: the store afterwards is the store before with that path removed from the disk,
  so the index, the descriptors it points to and the persisted document are as before.
\<close>

theorem Put_failure_cleans_up:
  assumes "Put pf env key data contentType fs = (Inl (WriteFailed e), fs')"
  shows "let filePath = filepath_Join pf (basePath fs)
                          (hex (md5_Sum pf (key @ time_String pf (now_id env))))
         in files fs' filePath = None
          \<and> fs' = fs\<lparr>files := (files fs)(filePath := None)\<rparr>
          \<and> objects fs' = objects fs
          \<and> object_at fs' = object_at fs
          \<and> index_snapshot fs' = index_snapshot fs
          \<and> index_document fs' = index_document fs"
proof -
  obtain wfile whash written err where
    c: "io_Copy (multi_Write (space_left env)) ([], []) (chunks data) (failure data)
          = ((wfile, whash), written, err)"
    by (metis prod.exhaust)
  have ce: "create_error env = None"
    using assms by (cases "create_error env") (simp_all add: Put_def Let_def)
  have "err \<noteq> None"
    using assms ce c by (cases err) (auto simp: Put_def Let_def)
  then obtain e' where e': "err = Some e'" by auto
  have "fs' = fs\<lparr>files := (files fs)
                 (filepath_Join pf (basePath fs)
                    (hex (md5_Sum pf (key @ time_String pf (now_id env)))) := None)\<rparr>"
    using assms ce c e' by (simp add: Put_def Let_def os_Remove_def)
  then show ?thesis by (simp add: Let_def index_snapshot_def)
qed

theorem Put_failure_cleans_up_witness:
  "fst (Put stand_in retry ''report.csv'' (Reader [''wo''] (Some ''unexpected EOF'')) ''text/csv'' stored)
     = Inl (WriteFailed ''unexpected EOF'')
   \<and> objects stored ''report.csv'' = Some 0
   \<and> objects (snd (Put stand_in retry ''report.csv'' (Reader [''wo''] (Some ''unexpected EOF''))
                      ''text/csv'' stored)) = objects stored
   \<and> files (snd (Put stand_in retry ''report.csv'' (Reader [''wo''] (Some ''unexpected EOF''))
                      ''text/csv'' stored))
         (filepath_Join stand_in (basePath stored)
            (hex (md5_Sum stand_in (''report.csv'' @ time_String stand_in (now_id retry))))) = None"
proof -
  let ?r = "Put stand_in retry ''report.csv'' (Reader [''wo''] (Some ''unexpected EOF'')) ''text/csv'' stored"
  have f: "fst ?r = Inl (WriteFailed ''unexpected EOF'')"
    by (simp add: Put_def retry_def multi_Write_def Let_def)
  then have h: "?r = (Inl (WriteFailed ''unexpected EOF''), snd ?r)"
    by (metis prod.collapse)
  have o: "objects stored ''report.csv'' = Some 0"
    by (simp add: stored_def Put_def calm_def multi_Write_def Let_def empty_store_def saveMetadata_def)
  have "objects (snd ?r) = objects stored
      \<and> files (snd ?r)
         (filepath_Join stand_in (basePath stored)
            (hex (md5_Sum stand_in (''report.csv'' @ time_String stand_in (now_id retry))))) = None"
    using Put_failure_cleans_up[OF h] unfolding Let_def by blast
  then show ?thesis using f o by blast
qed

lemma sint_succ:
  fixes w :: "64 word"
  assumes "sint w < 2 ^ 63 - 1"
  shows "sint (w + 1) = sint w + 1"
proof -
  have ge: "- (2 ^ 63) \<le> sint w" using sint_ge[of w] by simp
  have "sint (w + 1) = signed_take_bit 63 (sint w + 1)"
    by (simp add: sint_word_add)
  also have "\<dots> = sint w + 1"
    by (rule signed_take_bit_int_eq_self) (use ge assms in simp_all)
  finally show ?thesis .
qed

lemma Get_state:
  "objects fs key = Some obj \<Longrightarrow>
   snd (Get env key fs) =
     saveMetadata
       (fs\<lparr>object_at := (object_at fs)
             (obj := (object_at fs obj)
                \<lparr>AccessCount := AccessCount (object_at fs obj) + 1,
                 LastAccess := now_get env\<rparr>)\<rparr>)"
  by (simp add: Get_def Let_def split: list.splits sum.splits)

text \<open>
  C6, as the code has it.  For a key present in the index, one call of \<open>Get\<close> replaces
  the entry by the entry with \<open>AccessCount\<close> incremented by one (the \<open>int64\<close> increment:
  one more as a number unless the counter stood at \<open>2^63 - 1\<close>) and \<open>LastAccess\<close> set to
  the reading of the clock that the call takes; the new \<open>LastAccess\<close> is not before the
  former one exactly when that reading is not before it.  Every other field, every other
  descriptor, the index and the payload files are unchanged.  The document on disk is
  rewritten from the updated index before anything is returned, whether bytes or an error
  of opening the file.
\<close>

theorem Get_access_statistics:
  assumes "objects fs key = Some obj"
  shows "let fs' = snd (Get env key fs); ob = object_at fs obj; ob' = object_at fs' obj
         in ob' = ob\<lparr>AccessCount := AccessCount ob + 1, LastAccess := now_get env\<rparr>
          \<and> (sint (AccessCount ob) < 2 ^ 63 - 1
                \<longrightarrow> sint (AccessCount ob') = sint (AccessCount ob) + 1)
          \<and> LastAccess ob' = now_get env
          \<and> ((LastAccess ob \<le> LastAccess ob') = (LastAccess ob \<le> now_get env))
          \<and> objects fs' = objects fs
          \<and> (\<forall>p. p \<noteq> obj \<longrightarrow> object_at fs' p = object_at fs p)
          \<and> files fs' = files fs
          \<and> index_document fs' = Some (index_snapshot fs')
          \<and> (\<forall>content d. fst (Get env key fs) = Inr (content, d) \<longrightarrow> d = obj)"
proof -
  have d: "\<forall>content d. fst (Get env key fs) = Inr (content, d) \<longrightarrow> d = obj"
    using assms by (auto simp: Get_def Let_def split: list.splits sum.splits)
  show ?thesis
    unfolding Let_def Get_state[OF assms]
    using d by (simp add: saveMetadata_def index_snapshot_def sint_succ)
qed

lemma files_remove_replicas:
  "files (remove_replicas rs fs) path
     = (if path \<in> FilePath ` set rs then None else files fs path)"
  by (induction rs arbitrary: fs) (auto simp: os_Remove_def)

lemma remove_replicas_frame:
  "remove_replicas rs fs = fs\<lparr>files := files (remove_replicas rs fs)\<rparr>"
proof (induction rs arbitrary: fs)
  case Nil
  then show ?case by simp
next
  case (Cons r rs)
  have "remove_replicas (r # rs) fs = remove_replicas rs (os_Remove (FilePath r) fs)" by simp
  also have "\<dots> = (os_Remove (FilePath r) fs)
                       \<lparr>files := files (remove_replicas rs (os_Remove (FilePath r) fs))\<rparr>"
    by (rule Cons.IH)
  also have "\<dots> = fs\<lparr>files := files (remove_replicas (r # rs) fs)\<rparr>"
    by (simp add: os_Remove_def)
  finally show ?case .
qed

lemma remove_replicas_fields:
  "objects (remove_replicas rs fs) = objects fs"
  "object_at (remove_replicas rs fs) = object_at fs"
  by (subst remove_replicas_frame, simp)+

lemma Delete_present:
  assumes "objects fs key = Some obj"
  shows "fst (Delete key fs) = None"
    and "objects (snd (Delete key fs)) = (objects fs)(key := None)"
    and "object_at (snd (Delete key fs)) = object_at fs"
    and "files (snd (Delete key fs)) = files (remove_replicas (Replicas (object_at fs obj)) fs)"
    and "index_document (snd (Delete key fs)) = Some (index_snapshot (snd (Delete key fs)))"
  using assms
  by (simp_all add: Delete_def Let_def saveMetadata_def index_snapshot_def remove_replicas_fields
        cong: if_cong)

text \<open>
  C7.  For a key present in the index, \<open>Delete\<close> succeeds, unlinks every path listed in
  the entry's \<open>Replicas\<close> and no other, removes the index entry and rewrites the document
  on disk; a \<open>Get\<close> of the key that follows fails with \<open>object not found\<close> and changes
  nothing.  For a key not in the index, \<open>Delete\<close> fails with \<open>object not found\<close> and
  the store is unchanged.
\<close>

theorem Delete_removes:
  "(objects fs key = Some obj \<longrightarrow>
      (let fs' = snd (Delete key fs)
       in fst (Delete key fs) = None
        \<and> objects fs' = (objects fs)(key := None)
        \<and> (\<forall>replica \<in> set (Replicas (object_at fs obj)). files fs' (FilePath replica) = None)
        \<and> (\<forall>path. path \<notin> FilePath ` set (Replicas (object_at fs obj))
              \<longrightarrow> files fs' path = files fs path)
        \<and> index_document fs' = Some (index_snapshot fs')
        \<and> Get env key fs' = (Inl (ObjectNotFound key), fs')))
   \<and> (objects fs key = None \<longrightarrow> Delete key fs = (Some (ObjectNotFound key), fs))"
proof (intro conjI impI)
  assume a: "objects fs key = Some obj"
  let ?fs' = "snd (Delete key fs)"
  have g: "Get env key ?fs' = (Inl (ObjectNotFound key), ?fs')"
    using Delete_present(2)[OF a] by (simp add: Get_def)
  show "let fs' = snd (Delete key fs)
       in fst (Delete key fs) = None
        \<and> objects fs' = (objects fs)(key := None)
        \<and> (\<forall>replica \<in> set (Replicas (object_at fs obj)). files fs' (FilePath replica) = None)
        \<and> (\<forall>path. path \<notin> FilePath ` set (Replicas (object_at fs obj))
              \<longrightarrow> files fs' path = files fs path)
        \<and> index_document fs' = Some (index_snapshot fs')
        \<and> Get env key fs' = (Inl (ObjectNotFound key), fs')"
    unfolding Let_def
    using Delete_present(1,2,5)[OF a] g
    by (simp add: Delete_present(4)[OF a] files_remove_replicas)
next
  assume "objects fs key = None"
  then show "Delete key fs = (Some (ObjectNotFound key), fs)"
    by (simp add: Delete_def)
qed

lemma stored_index: "objects stored ''report.csv'' = Some 0"
  by (subst Put_success(3)[OF stored_eq]) (simp add: saveMetadata_def)

lemma stored_object:
  "object_at stored 0 =
     \<lparr>obj_ID = hex (md5_Sum stand_in (''report.csv'' @ time_String stand_in 3)),
      Key = ''report.csv'', Size = 5, ContentType = ''text/csv'',
      Checksum = hex (md5_Sum stand_in ''hello''),
      CreatedAt = 3, UpdatedAt = 3, AccessCount = 0, LastAccess = 3,
      Metadata = Map.empty, StorageTier = ''hot'',
      Replicas = [\<lparr>NodeID = ''node-1'',
                   FilePath = filepath_Join stand_in ''data''
                     (hex (md5_Sum stand_in (''report.csv'' @ time_String stand_in 3))),
                   replica_Status = ''active''\<rparr>]\<rparr>"
  by (subst Put_success(3)[OF stored_eq]) (simp add: saveMetadata_def calm_def empty_store_def)

theorem Get_access_statistics_witness:
  "objects stored ''report.csv'' = Some 0
   \<and> sint (AccessCount (object_at stored 0)) < 2 ^ 63 - 1
   \<and> AccessCount (object_at (snd (Get \<lparr>now_get = 8, open_error = None\<rparr> ''report.csv'' stored)) 0) = 1
   \<and> LastAccess (object_at (snd (Get \<lparr>now_get = 8, open_error = None\<rparr> ''report.csv'' stored)) 0) = 8
   \<and> index_document (snd (Get \<lparr>now_get = 8, open_error = None\<rparr> ''report.csv'' stored))
       = Some (index_snapshot (snd (Get \<lparr>now_get = 8, open_error = None\<rparr> ''report.csv'' stored)))"
proof -
  let ?g = "\<lparr>now_get = 8, open_error = None\<rparr>"
  have c: "sint (AccessCount (object_at stored 0)) < 2 ^ 63 - 1"
    by (simp add: stored_object)
  have "object_at (snd (Get ?g ''report.csv'' stored)) 0
          = (object_at stored 0)\<lparr>AccessCount := AccessCount (object_at stored 0) + 1,
                                  LastAccess := now_get ?g\<rparr>
      \<and> index_document (snd (Get ?g ''report.csv'' stored))
          = Some (index_snapshot (snd (Get ?g ''report.csv'' stored)))"
    using Get_access_statistics[OF stored_index] unfolding Let_def by blast
  then show ?thesis using stored_index c by (simp add: stored_object)
qed

text \<open>
  C6 as stated fails in its clause on \<open>LastAccess\<close>: \<open>Get\<close> stores the reading of the clock
  without comparing it to the value it replaces.  The object stored at reading 3 and read
  at reading 1 (the wall clock was set back in between) has its \<open>LastAccess\<close> lowered
  from 3 to 1.
\<close>

theorem Get_lowers_LastAccess:
  "objects stored ''report.csv'' = Some 0
   \<and> LastAccess (object_at stored 0) = 3
   \<and> LastAccess (object_at (snd (Get \<lparr>now_get = 1, open_error = None\<rparr> ''report.csv'' stored)) 0)
       = 1"
  using stored_index by (simp add: Get_state stored_object saveMetadata_def)

theorem Delete_removes_witness:
  "objects stored ''report.csv'' = Some 0
   \<and> fst (Delete ''report.csv'' stored) = None
   \<and> objects (snd (Delete ''report.csv'' stored)) ''report.csv'' = None
   \<and> files (snd (Delete ''report.csv'' stored))
        (filepath_Join stand_in ''data''
           (hex (md5_Sum stand_in (''report.csv'' @ time_String stand_in 3)))) = None
   \<and> fst (Get \<lparr>now_get = 8, open_error = None\<rparr> ''report.csv'' (snd (Delete ''report.csv'' stored)))
       = Inl (ObjectNotFound ''report.csv'')
   \<and> objects empty_store ''report.csv'' = None
   \<and> Delete ''report.csv'' empty_store = (Some (ObjectNotFound ''report.csv''), empty_store)"
proof -
  let ?g = "\<lparr>now_get = 8, open_error = None\<rparr>"
  let ?fs' = "snd (Delete ''report.csv'' stored)"
  let ?path = "filepath_Join stand_in ''data''
                 (hex (md5_Sum stand_in (''report.csv'' @ time_String stand_in 3)))"
  have e: "objects empty_store ''report.csv'' = None" by (simp add: empty_store_def)
  have a: "fst (Delete ''report.csv'' stored) = None
      \<and> objects ?fs' = (objects stored)(''report.csv'' := None)
      \<and> (\<forall>replica \<in> set (Replicas (object_at stored 0)). files ?fs' (FilePath replica) = None)
      \<and> Get ?g ''report.csv'' ?fs' = (Inl (ObjectNotFound ''report.csv''), ?fs')"
    using Delete_removes[of stored "''report.csv''" 0 ?g] stored_index
    unfolding Let_def by blast
  then have f: "files ?fs' ?path = None" by (simp add: stored_object)
  have b: "Delete ''report.csv'' empty_store = (Some (ObjectNotFound ''report.csv''), empty_store)"
    using Delete_removes[of empty_store "''report.csv''" 0 ?g] e by blast
  show ?thesis using stored_index a f e b by simp
qed

end
